theory Spec2Isabelle
  imports Complex_Main
begin

section \<open>Python values\<close>

text \<open>
  A Python \<open>str\<close> is a sequence of Unicode code points, so a string is a list of
  code points here. \<open>str\<close> turns a literal of the source into such a list.
\<close>

type_synonym pystr = "nat list"

definition str :: "string \<Rightarrow> pystr" where
  "str s = map of_char s"

text \<open>
  What Python does with a character beyond ASCII is read from the Unicode character
  database of the interpreter, which is no part of the program and changes with the
  version of Python. The database is a parameter \<open>U\<close> of the model, and a theorem about
  a function that takes \<open>U\<close> holds for every database, Python's own among them. It
  gives

    \<^item> \<open>u_lower\<close>, \<open>u_upper\<close>, \<open>u_title\<close>: the results of \<open>str.lower()\<close>,
      \<open>str.upper()\<close> and \<open>str.title()\<close> on a string (these mappings can change the
      length of a string and look at the neighbours of a character);
    \<^item> \<open>u_tolower\<close>: the lower case of one character, by which \<open>re\<close> compares
      under \<open>re.IGNORECASE\<close>;
    \<^item> \<open>u_decimal\<close>: the value of a decimal digit (\<open>str.isdecimal()\<close>, \<open>\d\<close>,
      and the digits \<open>float\<close> reads), \<open>None\<close> for any other character;
    \<^item> \<open>u_alnum\<close>: whether a character is a letter or a number
      (\<open>str.isalnum()\<close>, by which \<open>\w\<close> and \<open>\b\<close> go).

  The database is asked about the characters from 128 on only: on ASCII the
  definitions below have what Python does, so on ASCII strings nothing depends on \<open>U\<close>.
\<close>

record unicode =
  u_lower :: "pystr \<Rightarrow> pystr"
  u_upper :: "pystr \<Rightarrow> pystr"
  u_title :: "pystr \<Rightarrow> pystr"
  u_tolower :: "nat \<Rightarrow> nat"
  u_decimal :: "nat \<Rightarrow> nat option"
  u_alnum :: "nat \<Rightarrow> bool"

definition is_ascii :: "pystr \<Rightarrow> bool" where
  "is_ascii s = list_all (\<lambda>c. c < 128) s"

definition lower_char :: "nat \<Rightarrow> nat" where
  "lower_char c = (if 65 \<le> c \<and> c \<le> 90 then c + 32 else c)"

definition upper_char :: "nat \<Rightarrow> nat" where
  "upper_char c = (if 97 \<le> c \<and> c \<le> 122 then c - 32 else c)"

text \<open>\<open>s.lower()\<close> and \<open>s.upper()\<close>.\<close>

definition lower :: "unicode \<Rightarrow> pystr \<Rightarrow> pystr" where
  "lower U s = (if is_ascii s then map lower_char s else u_lower U s)"

definition upper :: "unicode \<Rightarrow> pystr \<Rightarrow> pystr" where
  "upper U s = (if is_ascii s then map upper_char s else u_upper U s)"

text \<open>
  The white space of \<open>str.strip()\<close> and of \<open>\s\<close> in a pattern: the code points for
  which \<open>str.isspace()\<close> holds.
\<close>

definition is_space :: "nat \<Rightarrow> bool" where
  "is_space c \<longleftrightarrow>
     (9 \<le> c \<and> c \<le> 13) \<or> (28 \<le> c \<and> c \<le> 32) \<or> c = 133 \<or> c = 160 \<or> c = 5760
     \<or> (8192 \<le> c \<and> c \<le> 8202) \<or> c = 8232 \<or> c = 8233 \<or> c = 8239 \<or> c = 8287
     \<or> c = 12288"

definition strip :: "pystr \<Rightarrow> pystr" where
  "strip s = rev (dropWhile is_space (rev (dropWhile is_space s)))"

text \<open>Truthiness of an optional string: \<open>None\<close> and the empty string are false.\<close>

fun truthy_str :: "pystr option \<Rightarrow> bool" where
  "truthy_str None = False"
| "truthy_str (Some s) = (s \<noteq> [])"

subsection \<open>Binary64 floating point\<close>

text \<open>
  A Python \<open>float\<close> is an IEEE 754 binary64 value: a finite value is the rational
  number it stands for (the two zeros are one value, which the operations below do not
  tell apart), and there are two infinities and NaN. \<open>round_double\<close> rounds a rational to
  the nearest binary64 value, ties to even: 53 significant bits, the least exponent that
  of the subnormal numbers, overflow to an infinity.
\<close>

datatype double = Fin rat | PInf | NInf | NaN

definition pow2 :: "int \<Rightarrow> rat" where
  "pow2 e = (if 0 \<le> e then 2 ^ nat e else 1 / 2 ^ nat (- e))"

fun bit_length :: "nat \<Rightarrow> nat" where
  "bit_length n = (if n = 0 then 0 else Suc (bit_length (n div 2)))"

declare bit_length.simps [simp del]

text \<open>
  The exponent of a positive rational: the \<open>e\<close> with \<open>2^e \<le> x < 2^(e+1)\<close>. From 1 on it
  is the exponent of the integer part; below 1 it is read off the reciprocal.
\<close>

definition ilog2 :: "rat \<Rightarrow> int" where
  "ilog2 x =
     (if 1 \<le> x then int (bit_length (nat \<lfloor>x\<rfloor>)) - 1
      else - int (bit_length (nat (\<lceil>1 / x\<rceil> - 1))))"

definition round_half_even :: "rat \<Rightarrow> int" where
  "round_half_even x =
     (let f = \<lfloor>x\<rfloor>; r = x - of_int f
      in if r < 1 / 2 then f
         else if 1 / 2 < r then f + 1
         else if even f then f else f + 1)"

definition round_double :: "rat \<Rightarrow> double" where
  "round_double x =
     (if x = 0 then Fin 0
      else let e = max (ilog2 \<bar>x\<bar>) (- 1022);
               u = pow2 (e - 52);
               y = of_int (round_half_even (x / u)) * u
           in if pow2 1024 \<le> \<bar>y\<bar> then (if 0 < x then PInf else NInf) else Fin y)"

fun double_sub :: "double \<Rightarrow> double \<Rightarrow> double" where
  "double_sub (Fin a) (Fin b) = round_double (a - b)"
| "double_sub NaN _ = NaN"
| "double_sub _ NaN = NaN"
| "double_sub PInf PInf = NaN"
| "double_sub NInf NInf = NaN"
| "double_sub PInf _ = PInf"
| "double_sub NInf _ = NInf"
| "double_sub (Fin a) PInf = NInf"
| "double_sub (Fin a) NInf = PInf"

fun double_abs :: "double \<Rightarrow> double" where
  "double_abs (Fin a) = Fin \<bar>a\<bar>"
| "double_abs PInf = PInf"
| "double_abs NInf = PInf"
| "double_abs NaN = NaN"

text \<open>\<open>a > b\<close> on floats; every comparison with NaN is false.\<close>

fun double_gt :: "double \<Rightarrow> double \<Rightarrow> bool" where
  "double_gt NaN _ = False"
| "double_gt _ NaN = False"
| "double_gt (Fin a) (Fin b) = (b < a)"
| "double_gt PInf PInf = False"
| "double_gt PInf _ = True"
| "double_gt NInf _ = False"
| "double_gt (Fin a) PInf = False"
| "double_gt (Fin a) NInf = True"

text \<open>Truthiness of an optional number: \<open>None\<close> and zero are false.\<close>

fun truthy_num :: "double option \<Rightarrow> bool" where
  "truthy_num None = False"
| "truthy_num (Some d) = (d \<noteq> Fin 0)"

section \<open>The record store (database\_manager.py)\<close>

text \<open>
  The three tables of \<open>setup_database\<close>, a row a record, a table the list of its rows
  in insertion order. A column that may be NULL is an option. The \<open>created_at\<close>
  timestamps are left out. A \<open>REAL\<close> column holds a binary64 value.

  Text that Python builds with an f-string from values of the store is kept as the list
  of its pieces: literal text, the \<open>str()\<close> of an optional string, the \<open>str()\<close> of an
  optional number.
\<close>

datatype piece = Text pystr | StrOf "pystr option" | NumOf "double option"

datatype discrepancy =
    VendorName pystr pystr
  | TotalAmount double double double

record purchase_order =
  po_id :: nat
  po_number :: "pystr option"
  po_vendor_name :: "pystr option"
  po_issue_date :: "pystr option"
  po_total_amount :: "double option"
  po_status :: pystr

record invoice =
  inv_id :: nat
  inv_invoice_number :: "pystr option"
  inv_po_number :: "pystr option"
  inv_vendor_name :: "pystr option"
  inv_invoice_date :: "pystr option"
  inv_total_amount :: "double option"
  inv_file_path :: "pystr option"
  inv_status :: pystr
  inv_validation_result :: "pystr option"

record validation_report =
  rep_id :: nat
  rep_invoice_id :: "nat option"
  rep_report_content :: "piece list"
  rep_discrepancies :: "discrepancy list option"
  rep_approval_status :: pystr

text \<open>
  \<open>report_seq\<close> is the largest id the table \<open>validation_reports\<close> has ever given out
  (\<open>AUTOINCREMENT\<close>).
\<close>

record database =
  purchase_orders :: "purchase_order list"
  invoices :: "invoice list"
  validation_reports :: "validation_report list"
  report_seq :: nat

subsection \<open>update\_approval\_status\<close>

text \<open>
  The \<open>UPDATE\<close> of the report, the \<open>SELECT\<close> of its invoice id, the \<open>UPDATE\<close> of the
  invoice, then \<open>commit\<close>. When the \<open>SELECT\<close> finds no row, \<open>fetchone()[0]\<close> raises, the
  handler returns \<open>False\<close> and the connection is closed without a commit: the store is
  as it was.
\<close>

definition approver_suffix :: "pystr option \<Rightarrow> pystr" where
  "approver_suffix comments =
     (if truthy_str comments
      then [10, 10] @ str ''Approver Comments: '' @ (case comments of Some c \<Rightarrow> c | None \<Rightarrow> [])
      else [10, 10] @ str ''Approved without comments'')"

definition update_approval_status ::
  "database \<Rightarrow> nat \<Rightarrow> pystr \<Rightarrow> pystr option \<Rightarrow> bool \<times> database" where
  "update_approval_status db report_id approval_status comments =
     (let db1 = db\<lparr>validation_reports :=
                  map (\<lambda>r. if rep_id r = report_id
                        then r\<lparr>rep_approval_status := approval_status,
                               rep_report_content :=
                                 rep_report_content r @ [Text (approver_suffix comments)]\<rparr>
                        else r)
                    (validation_reports db)\<rparr>
      in case find (\<lambda>r. rep_id r = report_id) (validation_reports db1) of
           None \<Rightarrow> (False, db)
         | Some row \<Rightarrow>
             (let invoice_id = rep_invoice_id row;
                  new_status = (if approval_status = str ''approved''
                                then str ''approved'' else str ''rejected'');
                  db2 = db1\<lparr>invoices :=
                          map (\<lambda>i. if Some (inv_id i) = invoice_id
                                then i\<lparr>inv_status := new_status\<rparr> else i)
                            (invoices db1)\<rparr>
              in (True, db2)))"

subsection \<open>validate\_invoice\<close>

text \<open>
  The checks of \<open>validate_invoice\<close>, one function each. Both test presence with
  Python's truthiness (\<open>po_vendor and invoice_vendor and ...\<close>), compare the vendor
  names after \<open>lower()\<close> and nothing else, and compare the amounts in binary64
  arithmetic with the literal \<open>0.01\<close>, which is the binary64 value nearest to 1/100.
\<close>

definition vendor_discrepancy :: "unicode \<Rightarrow> pystr option \<Rightarrow> pystr option \<Rightarrow> discrepancy list" where
  "vendor_discrepancy U po_vendor invoice_vendor =
     (case (po_vendor, invoice_vendor) of
        (Some pv, Some iv) \<Rightarrow>
          if truthy_str po_vendor \<and> truthy_str invoice_vendor \<and> lower U pv \<noteq> lower U iv
          then [VendorName pv iv] else []
      | _ \<Rightarrow> [])"

definition amount_discrepancy :: "double option \<Rightarrow> double option \<Rightarrow> discrepancy list" where
  "amount_discrepancy po_amount invoice_amount =
     (case (po_amount, invoice_amount) of
        (Some pa, Some ia) \<Rightarrow>
          if truthy_num po_amount \<and> truthy_num invoice_amount
             \<and> double_gt (double_abs (double_sub pa ia)) (round_double (1 / 100))
          then [TotalAmount pa ia (double_abs (double_sub pa ia))] else []
      | _ \<Rightarrow> [])"

fun format_discrepancy :: "discrepancy \<Rightarrow> piece list" where
  "format_discrepancy (TotalAmount p i d) =
     [Text (str ''- Total Amount: PO: $''), NumOf (Some p),
      Text (str '' vs Invoice: $''), NumOf (Some i),
      Text (str '' (Difference: $''), NumOf (Some d), Text (str '')'')]"
| "format_discrepancy (VendorName p i) =
     [Text (str ''- Vendor Name: PO: ''), StrOf (Some p),
      Text (str '' vs Invoice: ''), StrOf (Some i)]"

fun join_lines :: "piece list list \<Rightarrow> piece list" where
  "join_lines [] = []"
| "join_lines [l] = l"
| "join_lines (l # ls) = l @ [Text [10]] @ join_lines ls"

definition format_discrepancies :: "discrepancy list \<Rightarrow> piece list" where
  "format_discrepancies discrepancies =
     (if discrepancies = [] then [Text (str ''None found'')]
      else join_lines (map format_discrepancy discrepancies))"

definition indent :: pystr where
  "indent = [10] @ str ''            ''"

definition report_text ::
  "pystr option \<Rightarrow> pystr option \<Rightarrow> pystr \<Rightarrow> pystr option \<Rightarrow> pystr option \<Rightarrow>
   double option \<Rightarrow> double option \<Rightarrow> discrepancy list \<Rightarrow> piece list" where
  "report_text invoice_number po_num status invoice_vendor po_vendor invoice_amount
     po_amount discrepancies =
     [Text (indent @ str ''Invoice Validation Report'' @
            indent @ str ''-------------------------'' @
            indent @ str ''Invoice Number: ''), StrOf invoice_number,
      Text (indent @ str ''Purchase Order: ''), StrOf po_num,
      Text (indent @ str ''Validation Status: '' @ status @
            indent @
            indent @ str ''Details:'' @
            indent @ str ''- Invoice Vendor: ''), StrOf invoice_vendor,
      Text (indent @ str ''- PO Vendor: ''), StrOf po_vendor,
      Text (indent @ str ''- Invoice Amount: $''), NumOf invoice_amount,
      Text (indent @ str ''- PO Amount: $''), NumOf po_amount,
      Text (indent @
            indent @ str ''Discrepancies:'' @
            indent)]
     @ (if discrepancies \<noteq> [] then format_discrepancies discrepancies
        else [Text (str ''None found'')])
     @ [Text indent]"

text \<open>
  What \<open>validate_invoice\<close> returns: \<open>None\<close>, the dictionary of an error with its
  message, or the dictionary of a finished validation.
\<close>

datatype outcome =
    ReturnsNone
  | ErrorResult "piece list"
  | Validation pystr nat nat "discrepancy list" "piece list"

fun is_vendor_discrepancy :: "discrepancy \<Rightarrow> bool" where
  "is_vendor_discrepancy (VendorName p i) = True"
| "is_vendor_discrepancy (TotalAmount p i d) = False"

fun is_amount_discrepancy :: "discrepancy \<Rightarrow> bool" where
  "is_amount_discrepancy (VendorName p i) = False"
| "is_amount_discrepancy (TotalAmount p i d) = True"

fun outcome_discrepancies :: "outcome \<Rightarrow> discrepancy list option" where
  "outcome_discrepancies (Validation status invoice_id report_id ds content) = Some ds"
| "outcome_discrepancies _ = None"

datatype invoice_key = InvoiceId nat | InvoiceNumber pystr

definition get_invoice_id_by_number :: "database \<Rightarrow> pystr \<Rightarrow> nat option" where
  "get_invoice_id_by_number db invoice_number =
     map_option inv_id (find (\<lambda>i. inv_invoice_number i = Some invoice_number) (invoices db))"

text \<open>\<open>SELECT ... FROM purchase_orders WHERE po_number = ?\<close>: a NULL key equals nothing.\<close>

definition select_purchase_order :: "database \<Rightarrow> pystr option \<Rightarrow> purchase_order option" where
  "select_purchase_order db po_num =
     (case po_num of
        None \<Rightarrow> None
      | Some n \<Rightarrow> find (\<lambda>p. po_number p = Some n) (purchase_orders db))"

definition update_invoice :: "database \<Rightarrow> nat \<Rightarrow> pystr \<Rightarrow> pystr \<Rightarrow> database" where
  "update_invoice db invoice_id status validation_result =
     db\<lparr>invoices :=
          map (\<lambda>i. if inv_id i = invoice_id
                then i\<lparr>inv_status := status, inv_validation_result := Some validation_result\<rparr>
                else i)
            (invoices db)\<rparr>"

text \<open>
  The body of \<open>validate_invoice\<close> once the invoice id is known. The e-mail to the
  approver that follows the commit changes neither the store nor the value returned, and
  is not part of the model. The amounts of the store are numbers, so \<open>float()\<close> is the
  identity and raises nothing.
\<close>

definition validate_invoice_id :: "unicode \<Rightarrow> database \<Rightarrow> nat \<Rightarrow> outcome \<times> database" where
  "validate_invoice_id U db invoice_id =
     (case find (\<lambda>i. inv_id i = invoice_id) (invoices db) of
        None \<Rightarrow> (ReturnsNone, db)
      | Some invoice_row \<Rightarrow>
          (case select_purchase_order db (inv_po_number invoice_row) of
             None \<Rightarrow>
               (ErrorResult [Text (str ''Purchase order not found'')],
                update_invoice db invoice_id (str ''error'') (str ''Purchase order not found''))
           | Some po \<Rightarrow>
               (let discrepancies =
                      vendor_discrepancy U (po_vendor_name po) (inv_vendor_name invoice_row)
                      @ amount_discrepancy (po_total_amount po) (inv_total_amount invoice_row);
                    status = (if discrepancies \<noteq> [] then str ''discrepancies_found''
                              else str ''validated'');
                    validation_result =
                      (if discrepancies \<noteq> []
                       then str ''Discrepancies found between invoice and purchase order''
                       else str ''Invoice matches purchase order'');
                    db1 = update_invoice db invoice_id status validation_result;
                    report_content =
                      report_text (inv_invoice_number invoice_row) (inv_po_number invoice_row) status
                        (inv_vendor_name invoice_row) (po_vendor_name po)
                        (inv_total_amount invoice_row) (po_total_amount po) discrepancies;
                    report_id = Suc (report_seq db1);
                    db2 = db1\<lparr>validation_reports :=
                            validation_reports db1 @
                            [\<lparr>rep_id = report_id,
                              rep_invoice_id = Some invoice_id,
                              rep_report_content = report_content,
                              rep_discrepancies =
                                (if discrepancies \<noteq> [] then Some discrepancies else None),
                              rep_approval_status =
                                (if discrepancies \<noteq> [] then str ''requires_approval''
                                 else str ''auto_approved'')\<rparr>],
                          report_seq := report_id\<rparr>
                in (Validation status invoice_id report_id discrepancies report_content,
                    db2))))"

text \<open>
  \<open>validate_invoice\<close> takes an invoice id or an invoice number; a number is resolved
  first, and an unknown number (or the id 0, which is false in Python) is an error with
  nothing written.
\<close>

definition validate_invoice :: "unicode \<Rightarrow> database \<Rightarrow> invoice_key \<Rightarrow> outcome \<times> database" where
  "validate_invoice U db invoice_identifier =
     (case invoice_identifier of
        InvoiceId i \<Rightarrow> validate_invoice_id U db i
      | InvoiceNumber n \<Rightarrow>
          (case get_invoice_id_by_number db n of
             None \<Rightarrow>
               (ErrorResult [Text (str ''Invoice with number '' @ n @ str '' not found'')], db)
           | Some i \<Rightarrow>
               if i = 0
               then (ErrorResult
                       [Text (str ''Invoice with number '' @ n @ str '' not found'')], db)
               else validate_invoice_id U db i))"

subsection \<open>A store with one purchase order and one invoice\<close>

text \<open>
  The purchase order \<open>PO100\<close> and the invoice \<open>INV1\<close> that refers to it, with the
  vendor names and the amounts left open; the store of the examples below.
\<close>

definition example_db ::
  "pystr option \<Rightarrow> double option \<Rightarrow> pystr option \<Rightarrow> double option \<Rightarrow> database" where
  "example_db po_vendor po_amount invoice_vendor invoice_amount =
     \<lparr>purchase_orders =
        [\<lparr>po_id = 1, po_number = Some (str ''PO100''), po_vendor_name = po_vendor,
          po_issue_date = None, po_total_amount = po_amount, po_status = str ''active''\<rparr>],
      invoices =
        [\<lparr>inv_id = 1, inv_invoice_number = Some (str ''INV1''),
          inv_po_number = Some (str ''PO100''), inv_vendor_name = invoice_vendor,
          inv_invoice_date = None, inv_total_amount = invoice_amount,
          inv_file_path = None, inv_status = str ''pending'',
          inv_validation_result = None\<rparr>],
      validation_reports = [],
      report_seq = 0\<rparr>"

text \<open>The same store after a validation run has left a report that waits for a decision.\<close>

definition example_report_db :: database where
  "example_report_db =
     (example_db (Some (str ''Acme'')) (Some (Fin 500)) (Some (str ''Acme Inc'')) (Some (Fin 540)))
       \<lparr>validation_reports :=
          [\<lparr>rep_id = 1, rep_invoice_id = Some 1, rep_report_content = [],
            rep_discrepancies =
              Some [VendorName (str ''Acme'') (str ''Acme Inc''),
                    TotalAmount (Fin 500) (Fin 540) (Fin 40)],
            rep_approval_status = str ''requires_approval''\<rparr>],
        report_seq := 1\<rparr>"

text \<open>The invoice alone: the purchase order it names is not in the store.\<close>

definition example_orphan_db :: database where
  "example_orphan_db =
     (example_db (Some (str ''Acme'')) (Some (Fin 500)) (Some (str ''Acme'')) (Some (Fin 500)))
       \<lparr>purchase_orders := []\<rparr>"

section \<open>Regular expressions (the part of Python's \<open>re\<close> the program uses)\<close>

text \<open>
  The patterns of the program use character classes, sequence, alternation, greedy and
  lazy bounded repetition, one capturing group and the word boundary \<open>\b\<close>.
  \<open>re.search\<close> is a backtracking matcher: it tries the start positions from left to
  right and at each one takes the first way to match in the order of preference (the
  left alternative first, a greedy repetition as long as possible first, a lazy one as
  short as possible first). \<open>matches\<close> lists all ways to match from a position in that
  order, so the match that \<open>re.search\<close> returns is the head of the list at the first
  position where the list is not empty.

  The patterns are \<open>str\<close> patterns, so \<open>\d\<close>, \<open>\w\<close> and \<open>\s\<close> are the Unicode
  ones: \<open>\d\<close> is a decimal digit of any script, \<open>\w\<close> a letter or a number of any
  script or the underscore.
\<close>

text \<open>
  The value of a decimal digit, \<open>None\<close> for a character that is none. The value is
  below ten, and white space is no digit.
\<close>

definition decimal :: "unicode \<Rightarrow> nat \<Rightarrow> nat option" where
  "decimal U c =
     (if c < 128 then (if 48 \<le> c \<and> c \<le> 57 then Some (c - 48) else None)
      else if is_space c then None
      else map_option (\<lambda>v. v mod 10) (u_decimal U c))"

definition is_digit :: "unicode \<Rightarrow> nat \<Rightarrow> bool" where
  "is_digit U c \<longleftrightarrow> decimal U c \<noteq> None"

definition is_upper :: "nat \<Rightarrow> bool" where
  "is_upper c \<longleftrightarrow> 65 \<le> c \<and> c \<le> 90"

definition is_lower :: "nat \<Rightarrow> bool" where
  "is_lower c \<longleftrightarrow> 97 \<le> c \<and> c \<le> 122"

text \<open>
  A word character, for \<open>\w\<close> and \<open>\b\<close>: a letter, a number or the underscore. A
  decimal digit is a number.
\<close>

definition is_word :: "unicode \<Rightarrow> nat \<Rightarrow> bool" where
  "is_word U c \<longleftrightarrow>
     (if c < 128 then (48 \<le> c \<and> c \<le> 57) \<or> is_upper c \<or> is_lower c \<or> c = 95
      else u_alnum U c \<or> is_digit U c)"

text \<open>The lower case of a character, as \<open>re\<close> takes it under \<open>re.IGNORECASE\<close>.\<close>

definition tolower :: "unicode \<Rightarrow> nat \<Rightarrow> nat" where
  "tolower U c = (if c < 128 then lower_char c else u_tolower U c)"

datatype item = Ch nat | Range nat nat | Space | Digit | Word

text \<open>
  A class \<open>[...]\<close> or \<open>[^...]\<close>, a single character being a class of one.

  Under \<open>re.IGNORECASE\<close> the compiler of \<open>re\<close> looks at the characters the class
  names. If none of them has a case (a digit, a sign, \<open>\d\<close>, \<open>\s\<close>, \<open>\w\<close>), the
  class is matched as without the flag. Otherwise the class is folded: each character
  and range it names is replaced by the lower case of its characters, together with the
  characters that lower-case to themselves and still count as the same letter (the
  dotless i for \<open>i\<close>, the long s for \<open>s\<close>: the only ones for the letters of ASCII), and
  the lower case of the character of the text is looked up in the class so obtained.
  All letters in the patterns of the program are ASCII letters; the euro and the pound
  sign have no case.
\<close>

fun item_cased :: "item \<Rightarrow> bool" where
  "item_cased (Ch k) = (is_upper k \<or> is_lower k)"
| "item_cased (Range a b) = list_ex (\<lambda>k. is_upper k \<or> is_lower k) [a..<Suc b]"
| "item_cased Space = False"
| "item_cased Digit = False"
| "item_cased Word = False"

definition extra_cases :: "nat \<Rightarrow> nat list" where
  "extra_cases lo = (if lo = 105 then [305] else if lo = 115 then [383] else [])"

definition folds_to :: "nat \<Rightarrow> nat \<Rightarrow> bool" where
  "folds_to k x \<longleftrightarrow> x = lower_char k \<or> x \<in> set (extra_cases (lower_char k))"

fun in_item :: "unicode \<Rightarrow> bool \<Rightarrow> item \<Rightarrow> nat \<Rightarrow> bool" where
  "in_item U folded (Ch k) x = (if folded then folds_to k x else x = k)"
| "in_item U folded (Range a b) x =
     (if folded then list_ex (\<lambda>k. folds_to k x) [a..<Suc b] else a \<le> x \<and> x \<le> b)"
| "in_item U folded Space x = is_space x"
| "in_item U folded Digit x = is_digit U x"
| "in_item U folded Word x = is_word U x"

definition in_class :: "unicode \<Rightarrow> bool \<Rightarrow> bool \<Rightarrow> item list \<Rightarrow> nat \<Rightarrow> bool" where
  "in_class U ignorecase negated items c =
     (let folded = ignorecase \<and> list_ex item_cased items;
          x = (if folded then tolower U c else c)
      in negated \<noteq> list_ex (\<lambda>i. in_item U folded i x) items)"

datatype re =
    Eps
  | Sym bool "item list"
  | Seq re re
  | Alt re re
  | Rep nat "nat option" bool re
  | Grp nat re
  | Bnd

text \<open>
  The state of the matcher: the character before the position (for \<open>\b\<close>), the text from
  the position on, and the groups captured so far, the latest first.
\<close>

type_synonym mstate = "nat option \<times> pystr \<times> (nat \<times> pystr) list"

fun under :: "nat \<Rightarrow> nat option \<Rightarrow> bool" where
  "under k None = True"
| "under k (Some h) = (k < h)"

text \<open>
  \<open>Rep lo hi greedy r\<close> is \<open>r{lo,hi}\<close> (\<open>hi = None\<close> for no upper bound), lazy when
  \<open>greedy\<close> is false. \<open>rep\<close> runs the repetition after \<open>k\<close> rounds; \<open>fuel\<close> bounds the
  rounds still to come and is the length of the text plus one, which is never used up
  since a round of the repetition has to consume a character to go on (every repeated
  pattern of the program does).
\<close>

fun rep :: "(mstate \<Rightarrow> mstate list) \<Rightarrow> bool \<Rightarrow> nat \<Rightarrow> nat option \<Rightarrow> nat \<Rightarrow> nat
    \<Rightarrow> mstate \<Rightarrow> mstate list" where
  "rep m greedy lo hi k 0 s = (if lo \<le> k then [s] else [])"
| "rep m greedy lo hi k (Suc fuel) s =
     (let more = (if under k hi
                  then concat (map (rep m greedy lo hi (Suc k) fuel)
                         (filter (\<lambda>s'. length (fst (snd s')) < length (fst (snd s))) (m s)))
                  else []);
          stop = (if lo \<le> k then [s] else [])
      in if greedy then more @ stop else stop @ more)"

primrec matches :: "unicode \<Rightarrow> re \<Rightarrow> bool \<Rightarrow> mstate \<Rightarrow> mstate list" where
  "matches U Eps ic s = [s]"
| "matches U (Sym negated items) ic s =
     (case fst (snd s) of
        [] \<Rightarrow> []
      | c # cs \<Rightarrow> if in_class U ic negated items c then [(Some c, cs, snd (snd s))] else [])"
| "matches U (Seq a b) ic s = concat (map (matches U b ic) (matches U a ic s))"
| "matches U (Alt a b) ic s = matches U a ic s @ matches U b ic s"
| "matches U (Rep lo hi greedy r) ic s =
     rep (matches U r ic) greedy lo hi 0 (Suc (length (fst (snd s)))) s"
| "matches U (Grp n r) ic s =
     map (\<lambda>s'. (fst s', fst (snd s'),
                 (n, take (length (fst (snd s)) - length (fst (snd s'))) (fst (snd s)))
                 # snd (snd s')))
       (matches U r ic s)"
| "matches U Bnd ic s =
     (if (case fst s of None \<Rightarrow> False | Some p \<Rightarrow> is_word U p)
         \<noteq> (case fst (snd s) of [] \<Rightarrow> False | c # cs \<Rightarrow> is_word U c)
      then [s] else [])"

text \<open>A match object: the text matched, \<open>group(0)\<close>, and the groups.\<close>

type_synonym rmatch = "pystr \<times> (nat \<times> pystr) list"

definition group_re :: "rmatch \<Rightarrow> nat \<Rightarrow> pystr option" where
  "group_re m n = (if n = 0 then Some (fst m) else map_of (snd m) n)"

definition match_at :: "unicode \<Rightarrow> re \<Rightarrow> bool \<Rightarrow> nat option \<Rightarrow> pystr \<Rightarrow> rmatch option" where
  "match_at U r ic prev t =
     (case matches U r ic (prev, t, []) of
        [] \<Rightarrow> None
      | s # _ \<Rightarrow> Some (take (length t - length (fst (snd s))) t, snd (snd s)))"

fun search_from :: "unicode \<Rightarrow> re \<Rightarrow> bool \<Rightarrow> nat option \<Rightarrow> pystr \<Rightarrow> rmatch option" where
  "search_from U r ic prev [] = match_at U r ic prev []"
| "search_from U r ic prev (c # cs) =
     (case match_at U r ic prev (c # cs) of
        Some m \<Rightarrow> Some m
      | None \<Rightarrow> search_from U r ic (Some c) cs)"

text \<open>\<open>re.search(r, t)\<close>, and \<open>re.search(r, t, re.IGNORECASE)\<close> when \<open>ic\<close> is true.\<close>

definition search :: "unicode \<Rightarrow> re \<Rightarrow> bool \<Rightarrow> pystr \<Rightarrow> rmatch option" where
  "search U r ic t = search_from U r ic None t"

subsection \<open>Writing patterns\<close>

definition chr :: "char \<Rightarrow> re" where
  "chr c = Sym False [Ch (of_char c)]"

definition cls :: "item list \<Rightarrow> re" where
  "cls items = Sym False items"

definition seqs :: "re list \<Rightarrow> re" where
  "seqs rs = foldr Seq rs Eps"

fun alts :: "re list \<Rightarrow> re" where
  "alts [] = Sym False []"
| "alts [r] = r"
| "alts (r # rs) = Alt r (alts rs)"

definition lit :: "string \<Rightarrow> re" where
  "lit s = seqs (map chr s)"

definition star_re :: "re \<Rightarrow> re" where
  "star_re r = Rep 0 None True r"

definition plus_re :: "re \<Rightarrow> re" where
  "plus_re r = Rep 1 None True r"

definition lazy_plus_re :: "re \<Rightarrow> re" where
  "lazy_plus_re r = Rep 1 None False r"

definition opt_re :: "re \<Rightarrow> re" where
  "opt_re r = Rep 0 (Some 1) True r"

definition times_re :: "nat \<Rightarrow> nat \<Rightarrow> re \<Rightarrow> re" where
  "times_re lo hi r = Rep lo (Some hi) True r"

text \<open>\<open>\s*\<close>, \<open>[.:\s]*\<close>, \<open>[$\<euro>\<pounds>]?\<close> with the code points of the euro and pound signs.\<close>

definition spaces :: re where
  "spaces = star_re (cls [Space])"

definition separators :: re where
  "separators = star_re (cls [Ch 46, Ch 58, Space])"

definition currency_sign :: re where
  "currency_sign = opt_re (cls [Ch 36, Ch 8364, Ch 163])"

section \<open>The detector and the extractor (email\_monitor.py)\<close>

subsection \<open>is\_potential\_invoice\<close>

fun starts_with :: "pystr \<Rightarrow> pystr \<Rightarrow> bool" where
  "starts_with [] t = True"
| "starts_with (k # ks) [] = False"
| "starts_with (k # ks) (c # cs) = (k = c \<and> starts_with ks cs)"

text \<open>\<open>k in t\<close> on strings.\<close>

fun contains :: "pystr \<Rightarrow> pystr \<Rightarrow> bool" where
  "contains k [] = (k = [])"
| "contains k (c # cs) = (starts_with k (c # cs) \<or> contains k cs)"

definition invoice_keywords :: "pystr list" where
  "invoice_keywords = map str
     [''invoice'', ''bill'', ''receipt'', ''statement'',
      ''total amount'', ''due date'', ''tax invoice'',
      ''payment due'', ''charges'', ''order number'',
      ''balance due'', ''purchase order'', ''VAT'', ''GST'',
      ''invoice number'', ''invoice date'', ''billing date'',
      ''payment terms'', ''subtotal'', ''total due'', ''amount due'',
      ''invoice total'', ''account number'', ''customer id'']"

definition keyword_matches :: "pystr \<Rightarrow> nat" where
  "keyword_matches text_lower =
     length (filter (\<lambda>keyword. contains keyword text_lower) invoice_keywords)"

text \<open>\<open>invoice\s*#\s*\w+\<close> and \<open>total\s*[:$]?\s*\d+\<close>.\<close>

definition invoice_hash_re :: re where
  "invoice_hash_re =
     seqs [lit ''invoice'', spaces, chr CHR ''#'', spaces, plus_re (cls [Word])]"

definition total_digits_re :: re where
  "total_digits_re =
     seqs [lit ''total'', spaces, opt_re (cls [Ch 58, Ch 36]), spaces, plus_re (cls [Digit])]"

definition is_potential_invoice :: "unicode \<Rightarrow> pystr \<Rightarrow> bool" where
  "is_potential_invoice U text =
     (let text_lower = lower U text
      in if 3 \<le> keyword_matches text_lower then True
         else if 2 \<le> keyword_matches text_lower
                 \<and> list_ex (\<lambda>k. contains k text_lower)
                      (map str [''invoice number'', ''purchase order'', ''total amount''])
         then True
         else if search U invoice_hash_re False text_lower \<noteq> None
                 \<and> search U total_digits_re False text_lower \<noteq> None
         then True
         else False)"

subsection \<open>The patterns of extract\_invoice\_details\_from\_text\<close>

text \<open>\<open>invoice\s*#\s*(\w+)\<close>\<close>

definition invoice_re :: re where
  "invoice_re =
     seqs [lit ''invoice'', spaces, chr CHR ''#'', spaces, Grp 1 (plus_re (cls [Word]))]"

text \<open>\<open>\w+[-\w]*\<close>\<close>

definition token_re :: re where
  "token_re = seqs [plus_re (cls [Word]), star_re (cls [Ch 45, Word])]"

text \<open>\<open>invoice\s*(?:no|number|num)[.:\s]*(\w+[-\w]*)\<close>\<close>

definition alt_invoice_re :: re where
  "alt_invoice_re =
     seqs [lit ''invoice'', spaces, alts [lit ''no'', lit ''number'', lit ''num''],
           separators, Grp 1 token_re]"

text \<open>\<open>purchase\s*order\s*#\s*(\w+)\<close>\<close>

definition po_re :: re where
  "po_re =
     seqs [lit ''purchase'', spaces, lit ''order'', spaces, chr CHR ''#'', spaces,
           Grp 1 (plus_re (cls [Word]))]"

text \<open>\<open>(?:po|p\.o\.|purchase\s*order)[.:\s#]*(\w+[-\w]*)\<close>\<close>

definition alt_po_re :: re where
  "alt_po_re =
     seqs [alts [lit ''po'', lit ''p.o.'', seqs [lit ''purchase'', spaces, lit ''order'']],
           star_re (cls [Ch 46, Ch 58, Space, Ch 35]), Grp 1 token_re]"

text \<open>\<open>\d+(?:,\d{3})*(?:\.\d{2})?\<close>\<close>

definition number_re :: re where
  "number_re =
     seqs [plus_re (cls [Digit]),
           star_re (seqs [chr CHR '','', times_re 3 3 (cls [Digit])]),
           opt_re (seqs [chr CHR ''.'', times_re 2 2 (cls [Digit])])]"

text \<open>\<open>total\s*amount\s*[:$]?\s*(\d+(?:,\d{3})*(?:\.\d{2})?)\<close>\<close>

definition amount_re :: re where
  "amount_re =
     seqs [lit ''total'', spaces, lit ''amount'', spaces, opt_re (cls [Ch 58, Ch 36]), spaces,
           Grp 1 number_re]"

text \<open>
  \<open>(?:total|amount\s*due|balance\s*due|grand\s*total)[.:\s]*[$\<euro>\<pounds>]?\s*(\d+(?:,\d{3})*(?:\.\d{2})?)\<close>
\<close>

definition alt_amount_re :: re where
  "alt_amount_re =
     seqs [alts [lit ''total'', seqs [lit ''amount'', spaces, lit ''due''],
                 seqs [lit ''balance'', spaces, lit ''due''],
                 seqs [lit ''grand'', spaces, lit ''total'']],
           separators, currency_sign, spaces, Grp 1 number_re]"

text \<open>\<open>\b\d{1,2}/\d{1,2}/\d{4}\b\<close>\<close>

definition date_re :: re where
  "date_re =
     seqs [Bnd, times_re 1 2 (cls [Digit]), chr CHR ''/'', times_re 1 2 (cls [Digit]), chr CHR ''/'',
           times_re 4 4 (cls [Digit]), Bnd]"

text \<open>\<open>\d{1,2}[-/]\d{1,2}[-/]\d{2,4}|\w+\s+\d{1,2},?\s+\d{4}\<close>\<close>

definition labelled_date_re :: re where
  "labelled_date_re =
     Alt (seqs [times_re 1 2 (cls [Digit]), cls [Ch 45, Ch 47], times_re 1 2 (cls [Digit]),
                cls [Ch 45, Ch 47], times_re 2 4 (cls [Digit])])
         (seqs [plus_re (cls [Word]), plus_re (cls [Space]), times_re 1 2 (cls [Digit]),
                opt_re (chr CHR '',''), plus_re (cls [Space]), times_re 4 4 (cls [Digit])])"

text \<open>\<open>(?:invoice|bill|statement)\s*date[.:\s]*(...)\<close>\<close>

definition alt_date_re :: re where
  "alt_date_re =
     seqs [alts [lit ''invoice'', lit ''bill'', lit ''statement''], spaces, lit ''date'',
           separators, Grp 1 labelled_date_re]"

text \<open>
  \<open>(?:vendor|supplier|from|bill\s*from|sold\s*by)[.:\s]*([A-Za-z0-9\s.,&]+?)(?:\n|Inc\.|\bLLC\b|\bLtd\b|\bCorp\.?\b)\<close>
\<close>

definition vendor_re :: re where
  "vendor_re =
     seqs [alts [lit ''vendor'', lit ''supplier'', lit ''from'',
                 seqs [lit ''bill'', spaces, lit ''from''],
                 seqs [lit ''sold'', spaces, lit ''by'']],
           separators,
           Grp 1 (lazy_plus_re (cls [Range 65 90, Range 97 122, Range 48 57, Space,
                                   Ch 46, Ch 44, Ch 38])),
           alts [cls [Ch 10], lit ''Inc.'', seqs [Bnd, lit ''LLC'', Bnd],
                 seqs [Bnd, lit ''Ltd'', Bnd],
                 seqs [Bnd, lit ''Corp'', opt_re (chr CHR ''.''), Bnd]]]"

text \<open>\<open>([^<@]+)@\<close>\<close>

definition sender_re :: re where
  "sender_re = seqs [Grp 1 (plus_re (Sym True [Ch 60, Ch 64])), chr CHR ''@'']"

text \<open>\<open>(?:due|payment\s*due|due\s*date)[.:\s]*(...)\<close>\<close>

definition due_date_re :: re where
  "due_date_re =
     seqs [alts [lit ''due'', seqs [lit ''payment'', spaces, lit ''due''],
                 seqs [lit ''due'', spaces, lit ''date'']],
           separators, Grp 1 labelled_date_re]"

text \<open>\<open>(?:tax|vat|gst)[.:\s]*[$\<euro>\<pounds>]?\s*(\d+(?:,\d{3})*(?:\.\d{2})?)\<close>\<close>

definition tax_re :: re where
  "tax_re =
     seqs [alts [lit ''tax'', lit ''vat'', lit ''gst''], separators, currency_sign, spaces,
           Grp 1 number_re]"

text \<open>\<open>(?:subtotal|sub\s*total)[.:\s]*[$\<euro>\<pounds>]?\s*(\d+(?:,\d{3})*(?:\.\d{2})?)\<close>\<close>

definition subtotal_re :: re where
  "subtotal_re =
     seqs [alts [lit ''subtotal'', seqs [lit ''sub'', spaces, lit ''total'']], separators,
           currency_sign, spaces, Grp 1 number_re]"

text \<open>\<open>(?:currency|in)[.:\s]*(USD|EUR|GBP|JPY|CAD|AUD|CHF)\<close>\<close>

definition currency_re :: re where
  "currency_re =
     seqs [alts [lit ''currency'', lit ''in''], separators,
           Grp 1 (alts [lit ''USD'', lit ''EUR'', lit ''GBP'', lit ''JPY'', lit ''CAD'',
                        lit ''AUD'', lit ''CHF''])]"

subsection \<open>String methods and float()\<close>

text \<open>
  \<open>str.title()\<close>: a letter after a letter is lower-cased, any other letter upper-cased.
  \<open>title_from\<close> does it on an ASCII string.
\<close>

fun title_from :: "bool \<Rightarrow> pystr \<Rightarrow> pystr" where
  "title_from previous_is_cased [] = []"
| "title_from previous_is_cased (c # cs) =
     (if is_upper c \<or> is_lower c
      then (if previous_is_cased then lower_char c else upper_char c) # title_from True cs
      else c # title_from False cs)"

definition title :: "unicode \<Rightarrow> pystr \<Rightarrow> pystr" where
  "title U s = (if is_ascii s then title_from False s else u_title U s)"

text \<open>\<open>s.replace(a, b)\<close> for single characters, and \<open>s.replace(a, '')\<close>.\<close>

definition replace_char :: "nat \<Rightarrow> nat \<Rightarrow> pystr \<Rightarrow> pystr" where
  "replace_char a b s = map (\<lambda>c. if c = a then b else c) s"

definition remove_char :: "nat \<Rightarrow> pystr \<Rightarrow> pystr" where
  "remove_char a s = filter (\<lambda>c. c \<noteq> a) s"

datatype py_error = ValueError | AttributeError

definition digits_value :: "pystr \<Rightarrow> nat" where
  "digits_value ds = foldl (\<lambda>a c. 10 * a + (c - 48)) 0 ds"

text \<open>
  \<open>float(s)\<close> first turns the string into ASCII: a character below 127 stays, white
  space becomes a blank, a decimal digit of any script becomes the ASCII digit of its
  value, and at any other character the string ends with a question mark, which no
  number contains.
\<close>

fun to_ascii :: "unicode \<Rightarrow> pystr \<Rightarrow> pystr" where
  "to_ascii U [] = []"
| "to_ascii U (c # cs) =
     (if c < 127 then c # to_ascii U cs
      else if is_space c then 32 # to_ascii U cs
      else (case decimal U c of
              None \<Rightarrow> [63]
            | Some v \<Rightarrow> (48 + v) # to_ascii U cs))"

definition ascii_digit :: "nat \<Rightarrow> bool" where
  "ascii_digit c \<longleftrightarrow> 48 \<le> c \<and> c \<le> 57"

text \<open>
  Then it reads a decimal numeral: digits, with or without a point and further digits,
  is the binary64 value nearest to the number written. Every other string is a
  \<open>ValueError\<close> here; Python reads more spellings (a sign, an exponent, underscores
  between digits, blanks around the number, \<open>inf\<close>, \<open>nan\<close>), none of which the
  patterns above can capture.
\<close>

definition float_of_ascii :: "pystr \<Rightarrow> py_error + double" where
  "float_of_ascii s =
     (let whole = takeWhile ascii_digit s; rest = dropWhile ascii_digit s
      in case rest of
           [] \<Rightarrow> if whole = [] then Inl ValueError
                 else Inr (round_double (of_nat (digits_value whole)))
         | c # fraction \<Rightarrow>
             if c = 46 \<and> list_all ascii_digit fraction \<and> (whole \<noteq> [] \<or> fraction \<noteq> [])
             then Inr (round_double
                         (of_nat (digits_value (whole @ fraction)) / 10 ^ length fraction))
             else Inl ValueError)"

definition float_of_str :: "unicode \<Rightarrow> pystr \<Rightarrow> py_error + double" where
  "float_of_str U s = float_of_ascii (to_ascii U s)"

subsection \<open>extract\_invoice\_details\_from\_text\<close>

record invoice_details =
  invoice_number :: "pystr option"
  purchase_order :: "pystr option"
  total_amount :: "double option"
  invoice_date :: "pystr option"
  file_path :: "pystr option"
  vendor_name :: "pystr option"
  due_date :: "pystr option"
  tax_amount :: "double option"
  subtotal :: "double option"
  currency :: pystr
  status :: pystr
  extracted_from :: pystr

text \<open>A primary pattern, then the alternative one; the value is \<open>group(1)\<close>.\<close>

definition first_group :: "unicode \<Rightarrow> re \<Rightarrow> re \<Rightarrow> pystr \<Rightarrow> pystr option" where
  "first_group U primary alternative text =
     (case search U primary True text of
        Some m \<Rightarrow> group_re m 1
      | None \<Rightarrow>
          (case search U alternative True text of
             Some m \<Rightarrow> group_re m 1
           | None \<Rightarrow> None))"

text \<open>
  \<open>float(m.group(1).replace(',', ''))\<close>: calling \<open>replace\<close> on a group that is \<open>None\<close>
  raises \<open>AttributeError\<close>, \<open>float\<close> raises \<open>ValueError\<close>.
\<close>

definition amount_of :: "unicode \<Rightarrow> rmatch \<Rightarrow> py_error + double" where
  "amount_of U m =
     (case group_re m 1 of
        None \<Rightarrow> Inl AttributeError
      | Some g \<Rightarrow> float_of_str U (remove_char 44 g))"

definition optional_amount :: "unicode \<Rightarrow> re \<Rightarrow> pystr \<Rightarrow> py_error + double option" where
  "optional_amount U pattern text =
     (case search U pattern True text of
        None \<Rightarrow> Inr None
      | Some m \<Rightarrow> (case amount_of U m of Inl e \<Rightarrow> Inl e | Inr a \<Rightarrow> Inr (Some a)))"

definition extract_total_amount :: "unicode \<Rightarrow> pystr \<Rightarrow> py_error + double option" where
  "extract_total_amount U text =
     (case search U amount_re True text of
        Some m \<Rightarrow> (case amount_of U m of Inl e \<Rightarrow> Inl e | Inr a \<Rightarrow> Inr (Some a))
      | None \<Rightarrow> optional_amount U alt_amount_re text)"

definition extract_invoice_date :: "unicode \<Rightarrow> pystr \<Rightarrow> pystr option" where
  "extract_invoice_date U text =
     (case search U date_re False text of
        Some m \<Rightarrow> group_re m 0
      | None \<Rightarrow>
          (case search U alt_date_re True text of
             Some m \<Rightarrow> group_re m 1
           | None \<Rightarrow> None))"

text \<open>
  The vendor: the labelled pattern, stripped; else, with a sender that is neither
  \<open>None\<close> nor empty, the part of the address before \<open>@\<close> with points turned into
  blanks, in title case.
\<close>

definition extract_vendor_name :: "unicode \<Rightarrow> pystr \<Rightarrow> pystr option \<Rightarrow> py_error + pystr option" where
  "extract_vendor_name U text email_sender =
     (case search U vendor_re True text of
        Some m \<Rightarrow>
          (case group_re m 1 of
             None \<Rightarrow> Inl AttributeError
           | Some g \<Rightarrow> Inr (Some (strip g)))
      | None \<Rightarrow>
          (case email_sender of
             None \<Rightarrow> Inr None
           | Some sender \<Rightarrow>
               if sender = [] then Inr None
               else (case search U sender_re False sender of
                       None \<Rightarrow> Inr None
                     | Some m \<Rightarrow>
                         (case group_re m 1 of
                            None \<Rightarrow> Inl AttributeError
                          | Some g \<Rightarrow> Inr (Some (title U (replace_char 46 32 g)))))))"

definition extract_due_date :: "unicode \<Rightarrow> pystr \<Rightarrow> pystr option" where
  "extract_due_date U text =
     (case search U due_date_re True text of
        Some m \<Rightarrow> group_re m 1
      | None \<Rightarrow> None)"

definition extract_currency :: "unicode \<Rightarrow> pystr \<Rightarrow> py_error + pystr" where
  "extract_currency U text =
     (case search U currency_re True text of
        Some m \<Rightarrow>
          (case group_re m 1 of
             None \<Rightarrow> Inl AttributeError
           | Some g \<Rightarrow> Inr (upper U g))
      | None \<Rightarrow>
          if search U (cls [Ch 36]) False text \<noteq> None then Inr (str ''USD'')
          else if search U (cls [Ch 8364]) False text \<noteq> None then Inr (str ''EUR'')
          else if search U (cls [Ch 163]) False text \<noteq> None then Inr (str ''GBP'')
          else Inr (str ''USD''))"

text \<open>
  The function, the fields in the order of the source; an exception of one step is the
  result of the whole. \<open>email_subject\<close> is a parameter the body never reads.
\<close>

definition extract_invoice_details_from_text ::
  "unicode \<Rightarrow> pystr \<Rightarrow> pystr option \<Rightarrow> pystr option \<Rightarrow> pystr option \<Rightarrow> py_error + invoice_details" where
  "extract_invoice_details_from_text U text filepath email_subject email_sender =
     (case extract_total_amount U text of
        Inl e \<Rightarrow> Inl e
      | Inr amount \<Rightarrow>
     (case extract_vendor_name U text email_sender of
        Inl e \<Rightarrow> Inl e
      | Inr vendor \<Rightarrow>
     (case optional_amount U tax_re text of
        Inl e \<Rightarrow> Inl e
      | Inr tax \<Rightarrow>
     (case optional_amount U subtotal_re text of
        Inl e \<Rightarrow> Inl e
      | Inr sub \<Rightarrow>
     (case extract_currency U text of
        Inl e \<Rightarrow> Inl e
      | Inr cur \<Rightarrow>
          Inr \<lparr>invoice_number = first_group U invoice_re alt_invoice_re text,
               purchase_order = first_group U po_re alt_po_re text,
               total_amount = amount,
               invoice_date = extract_invoice_date U text,
               file_path = filepath,
               vendor_name = vendor,
               due_date = extract_due_date U text,
               tax_amount = tax,
               subtotal = sub,
               currency = cur,
               status = str ''pending'',
               extracted_from = str ''email_attachment''\<rparr>)))))"

subsection \<open>What a pattern can match\<close>

text \<open>
  The strings a pattern can consume, whatever stands around them (\<open>\b\<close> consumes
  nothing), and the patterns without a capturing group. Both serve to state what a
  group of a match can hold.
\<close>

primrec lang :: "unicode \<Rightarrow> re \<Rightarrow> bool \<Rightarrow> pystr set" where
  "lang U Eps ic = {[]}"
| "lang U (Sym negated items) ic = {[c] |c. in_class U ic negated items c}"
| "lang U (Seq a b) ic = {u @ v |u v. u \<in> lang U a ic \<and> v \<in> lang U b ic}"
| "lang U (Alt a b) ic = lang U a ic \<union> lang U b ic"
| "lang U (Rep lo hi greedy r) ic =
     {concat ws |ws. set ws \<subseteq> lang U r ic \<and> lo \<le> length ws
        \<and> (case hi of None \<Rightarrow> True | Some h \<Rightarrow> length ws \<le> h)}"
| "lang U (Grp n r) ic = lang U r ic"
| "lang U Bnd ic = {[]}"

primrec no_group :: "re \<Rightarrow> bool" where
  "no_group Eps = True"
| "no_group (Sym negated items) = True"
| "no_group (Seq a b) = (no_group a \<and> no_group b)"
| "no_group (Alt a b) = (no_group a \<and> no_group b)"
| "no_group (Rep lo hi greedy r) = no_group r"
| "no_group (Grp n r) = False"
| "no_group Bnd = True"

subsection \<open>Example texts\<close>

definition boundary_text :: pystr where
  "boundary_text = str ''Invoice # 4412 ... Total Amount: $1,250.00''"

definition sibling_text :: pystr where
  "sibling_text = str ''Invoice # 4412 ... Total: $1,250.00''"

definition plain_text :: pystr where
  "plain_text = str ''hello''"

text \<open>
  Texts with characters beyond ASCII: \<open>ECOLE\<close> and \<open>ecole\<close> with an acute accent on
  the first letter (code points 201 and 233), \<open>invoice #3 total 5\<close> and \<open>Total: 123\<close> with
  the numbers in Arabic-Indic digits (code points 1632 to 1641), and \<open>subtotal 5\<close> with a
  long s (code point 383) for the first letter.
\<close>

definition ecole_upper :: pystr where
  "ecole_upper = [201, 67, 79, 76, 69]"

definition ecole_lower :: pystr where
  "ecole_lower = [233, 99, 111, 108, 101]"

definition arabic_text :: pystr where
  "arabic_text = str ''invoice #'' @ [1635] @ str '' total '' @ [1637]"

definition arabic_total_text :: pystr where
  "arabic_total_text = str ''Total: '' @ [1633, 1634, 1635]"

definition long_s_text :: pystr where
  "long_s_text = 383 # str ''ubtotal 5''"

section \<open>The approval decision\<close>

lemma find_map_upd_None:
  "find (\<lambda>r. rep_id r = k) rs = None \<Longrightarrow>
   find (\<lambda>r. rep_id r = k) (map (\<lambda>r. if rep_id r = k then f r else r) rs) = None"
  by (induction rs) (auto split: if_splits)

text \<open>
  C7. A decision on a report id that no stored report has returns failure, and the store
  after the call is the store before it.
\<close>

theorem update_approval_status_unknown_report:
  assumes "find (\<lambda>r. rep_id r = report_id) (validation_reports db) = None"
  shows "update_approval_status db report_id approval_status comments = (False, db)"
  using find_map_upd_None [OF assms]
  by (simp add: update_approval_status_def Let_def)

theorem update_approval_status_unknown_report_witness:
  "update_approval_status example_report_db 7 (str ''approved'') None = (False, example_report_db)"
proof -
  have "find (\<lambda>r. rep_id r = 7) (validation_reports example_report_db) = None"
    by (simp add: example_report_db_def)
  then show ?thesis by (rule update_approval_status_unknown_report)
qed

lemma find_map_upd_Some:
  "find (\<lambda>r. rep_id r = k) rs = Some row \<Longrightarrow> rep_id (f row) = k \<Longrightarrow>
   find (\<lambda>r. rep_id r = k) (map (\<lambda>r. if rep_id r = k then f r else r) rs) = Some (f row)"
  by (induction rs) (auto split: if_splits)

lemma reports_upd_status:
  assumes "r \<in> set (map (\<lambda>r. if rep_id r = k
                 then r\<lparr>rep_approval_status := d, rep_report_content := g r\<rparr> else r) rs)"
    and "rep_id r = k"
  shows "rep_approval_status r = d"
proof -
  from assms(1)
  have "r \<in> (\<lambda>r. if rep_id r = k
                 then r\<lparr>rep_approval_status := d, rep_report_content := g r\<rparr> else r) ` set rs"
    by (simp only: set_map)
  then obtain x where
    "r = (if rep_id x = k then x\<lparr>rep_approval_status := d, rep_report_content := g x\<rparr> else x)"
    by (rule imageE)
  with assms(2) show ?thesis by (cases "rep_id x = k") simp_all
qed

lemma reports_upd_ex:
  "find (\<lambda>r. rep_id r = k) rs = Some row \<Longrightarrow>
   \<exists>r \<in> set (map (\<lambda>r. if rep_id r = k
                 then r\<lparr>rep_approval_status := d, rep_report_content := g r\<rparr> else r) rs).
     rep_id r = k"
  by (induction rs) (simp_all split: if_splits)

lemma invoices_upd_status:
  assumes "i \<in> set (map (\<lambda>i. if Some (inv_id i) = k then i\<lparr>inv_status := d\<rparr> else i) xs)"
    and "Some (inv_id i) = k"
  shows "inv_status i = d"
proof -
  from assms(1)
  have "i \<in> (\<lambda>i. if Some (inv_id i) = k then i\<lparr>inv_status := d\<rparr> else i) ` set xs"
    by (simp only: set_map)
  then obtain x where
    "i = (if Some (inv_id x) = k then x\<lparr>inv_status := d\<rparr> else x)"
    by (rule imageE)
  with assms(2) show ?thesis by (cases "Some (inv_id x) = k") simp_all
qed

lemma invoices_upd_ids:
  "map inv_id (map (\<lambda>i. if Some (inv_id i) = k then i\<lparr>inv_status := d\<rparr> else i) xs)
   = map inv_id xs"
  by (induction xs) simp_all

lemma update_approval_status_found:
  assumes "find (\<lambda>r. rep_id r = report_id) (validation_reports db) = Some row"
  shows "update_approval_status db report_id approval_status comments =
     (True,
      db\<lparr>validation_reports :=
            map (\<lambda>r. if rep_id r = report_id
                  then r\<lparr>rep_approval_status := approval_status,
                         rep_report_content :=
                           rep_report_content r @ [Text (approver_suffix comments)]\<rparr>
                  else r)
              (validation_reports db),
          invoices :=
            map (\<lambda>i. if Some (inv_id i) = rep_invoice_id row
                  then i\<lparr>inv_status := (if approval_status = str ''approved''
                                          then str ''approved'' else str ''rejected'')\<rparr>
                  else i)
              (invoices db)\<rparr>)"
proof -
  have k: "rep_id row = report_id"
    using assms by (auto simp: find_Some_iff)
  show ?thesis
    using find_map_upd_Some [OF assms, of "\<lambda>r. r\<lparr>rep_approval_status := approval_status,
                         rep_report_content :=
                           rep_report_content r @ [Text (approver_suffix comments)]\<rparr>"] k
    by (simp add: update_approval_status_def Let_def)
qed

lemma update_approval_status_found_parts:
  assumes "find (\<lambda>r. rep_id r = report_id) (validation_reports db) = Some row"
    and "update_approval_status db report_id d c = (ok, db')"
  shows "ok"
    and "validation_reports db' =
           map (\<lambda>r. if rep_id r = report_id
                 then r\<lparr>rep_approval_status := d,
                        rep_report_content := rep_report_content r @ [Text (approver_suffix c)]\<rparr>
                 else r)
             (validation_reports db)"
    and "invoices db' =
           map (\<lambda>i. if Some (inv_id i) = rep_invoice_id row
                 then i\<lparr>inv_status := (if d = str ''approved''
                                         then str ''approved'' else str ''rejected'')\<rparr>
                 else i)
             (invoices db)"
proof -
  have e: "(ok, db') = (True,
      db\<lparr>validation_reports :=
            map (\<lambda>r. if rep_id r = report_id
                  then r\<lparr>rep_approval_status := d,
                         rep_report_content :=
                           rep_report_content r @ [Text (approver_suffix c)]\<rparr>
                  else r)
              (validation_reports db),
          invoices :=
            map (\<lambda>i. if Some (inv_id i) = rep_invoice_id row
                  then i\<lparr>inv_status := (if d = str ''approved''
                                          then str ''approved'' else str ''rejected'')\<rparr>
                  else i)
              (invoices db)\<rparr>)"
    using assms(2) update_approval_status_found [OF assms(1), of d c] by simp
  from e show "ok" by simp
  from e have d': "db' = db\<lparr>validation_reports :=
            map (\<lambda>r. if rep_id r = report_id
                  then r\<lparr>rep_approval_status := d,
                         rep_report_content :=
                           rep_report_content r @ [Text (approver_suffix c)]\<rparr>
                  else r)
              (validation_reports db),
          invoices :=
            map (\<lambda>i. if Some (inv_id i) = rep_invoice_id row
                  then i\<lparr>inv_status := (if d = str ''approved''
                                          then str ''approved'' else str ''rejected'')\<rparr>
                  else i)
              (invoices db)\<rparr>" by simp
  show "validation_reports db' =
           map (\<lambda>r. if rep_id r = report_id
                 then r\<lparr>rep_approval_status := d,
                        rep_report_content := rep_report_content r @ [Text (approver_suffix c)]\<rparr>
                 else r)
             (validation_reports db)"
    by (subst d') simp
  show "invoices db' =
           map (\<lambda>i. if Some (inv_id i) = rep_invoice_id row
                 then i\<lparr>inv_status := (if d = str ''approved''
                                         then str ''approved'' else str ''rejected'')\<rparr>
                 else i)
             (invoices db)"
    by (subst d') simp
qed

text \<open>
  C8. Two decisions on the same stored report, the second different from the first: both
  calls succeed, after the first the report carries the first decision, after the
  second every report with that id carries the second decision, and so does the status
  of every invoice the report belongs to. The second call overwrites the first.
\<close>

theorem update_approval_status_twice:
  assumes found: "find (\<lambda>r. rep_id r = report_id) (validation_reports db) = Some row"
    and d1: "d1 = str ''approved'' \<or> d1 = str ''rejected''"
    and d2: "d2 = str ''approved'' \<or> d2 = str ''rejected''"
    and neq: "d1 \<noteq> d2"
    and first: "update_approval_status db report_id d1 c1 = (ok1, db1)"
    and second: "update_approval_status db1 report_id d2 c2 = (ok2, db2)"
  shows "ok1 \<and> ok2
    \<and> (\<forall>r \<in> set (validation_reports db1). rep_id r = report_id \<longrightarrow> rep_approval_status r = d1)
    \<and> (\<forall>r \<in> set (validation_reports db2). rep_id r = report_id \<longrightarrow> rep_approval_status r = d2)
    \<and> (\<exists>r \<in> set (validation_reports db2). rep_id r = report_id)
    \<and> (\<forall>i \<in> set (invoices db2). Some (inv_id i) = rep_invoice_id row \<longrightarrow> inv_status i = d2)
    \<and> map inv_id (invoices db2) = map inv_id (invoices db)"
proof -
  let ?f1 = "\<lambda>r. r\<lparr>rep_approval_status := d1,
                 rep_report_content := rep_report_content r @ [Text (approver_suffix c1)]\<rparr>"
  have k: "rep_id row = report_id"
    using found by (auto simp: find_Some_iff)
  note p1 = update_approval_status_found_parts [OF found first]
  have found1: "find (\<lambda>r. rep_id r = report_id) (validation_reports db1) = Some (?f1 row)"
    unfolding p1(2) using find_map_upd_Some [OF found, of ?f1] k by simp
  note p2 = update_approval_status_found_parts [OF found1 second]
  have r1: "\<forall>r \<in> set (validation_reports db1). rep_id r = report_id \<longrightarrow> rep_approval_status r = d1"
    unfolding p1(2) by (intro ballI impI) (erule reports_upd_status, assumption)
  have r2: "\<forall>r \<in> set (validation_reports db2). rep_id r = report_id \<longrightarrow> rep_approval_status r = d2"
    unfolding p2(2) by (intro ballI impI) (erule reports_upd_status, assumption)
  have ex: "\<exists>r \<in> set (validation_reports db2). rep_id r = report_id"
    unfolding p2(2) by (rule reports_upd_ex [OF found1])
  have st: "(if d2 = str ''approved'' then str ''approved'' else str ''rejected'') = d2"
    using d2 by auto
  have "rep_invoice_id (?f1 row) = rep_invoice_id row" by simp
  then have inv2: "invoices db2 =
           map (\<lambda>i. if Some (inv_id i) = rep_invoice_id row
                 then i\<lparr>inv_status := d2\<rparr> else i) (invoices db1)"
    using p2(3) st by simp
  have i2: "\<forall>i \<in> set (invoices db2). Some (inv_id i) = rep_invoice_id row \<longrightarrow> inv_status i = d2"
    unfolding inv2 by (intro ballI impI) (erule invoices_upd_status, assumption)
  have ids: "map inv_id (invoices db2) = map inv_id (invoices db)"
    unfolding inv2 p1(3) by (simp only: invoices_upd_ids)
  from p1(1) p2(1) r1 r2 ex i2 ids show ?thesis by blast
qed

lemma example_report_db_find:
  "find (\<lambda>r. rep_id r = 1) (validation_reports example_report_db) =
   Some \<lparr>rep_id = 1, rep_invoice_id = Some 1, rep_report_content = [],
            rep_discrepancies =
              Some [VendorName (str ''Acme'') (str ''Acme Inc''),
                    TotalAmount (Fin 500) (Fin 540) (Fin 40)],
            rep_approval_status = str ''requires_approval''\<rparr>"
  by (simp add: example_report_db_def)

theorem update_approval_status_twice_witness:
  "fst (update_approval_status example_report_db 1 (str ''approved'') None)
   \<and> fst (update_approval_status
            (snd (update_approval_status example_report_db 1 (str ''approved'') None))
            1 (str ''rejected'') None)
   \<and> map rep_approval_status (validation_reports (snd (update_approval_status example_report_db 1 (str ''approved'') None))) = [str ''approved'']
   \<and> map rep_approval_status (validation_reports (snd (update_approval_status
            (snd (update_approval_status example_report_db 1 (str ''approved'') None))
            1 (str ''rejected'') None))) = [str ''rejected'']
   \<and> map inv_status (invoices (snd (update_approval_status
            (snd (update_approval_status example_report_db 1 (str ''approved'') None))
            1 (str ''rejected'') None))) = [str ''rejected'']"
proof -
  have h2: "str ''approved'' = str ''approved'' \<or> str ''approved'' = str ''rejected''" by simp
  have h3: "str ''rejected'' = str ''approved'' \<or> str ''rejected'' = str ''rejected''" by simp
  have h4: "str ''approved'' \<noteq> str ''rejected''" by (simp add: str_def)
  note t = update_approval_status_twice [OF example_report_db_find h2 h3 h4 prod.collapse [symmetric] prod.collapse [symmetric],
      of None None]
  show ?thesis
    using t h4
    by (simp add: update_approval_status_def example_report_db_def example_db_def Let_def)
qed

section \<open>Reconciliation\<close>

lemma validate_invoice_resolved:
  assumes "key = InvoiceId invoice_id
     \<or> (key = InvoiceNumber n \<and> get_invoice_id_by_number db n = Some invoice_id \<and> invoice_id \<noteq> 0)"
  shows "validate_invoice U db key = validate_invoice_id U db invoice_id"
  using assms by (auto simp: validate_invoice_def)

lemma validate_invoice_id_no_po:
  assumes "find (\<lambda>i. inv_id i = invoice_id) (invoices db) = Some invoice_row"
    and "select_purchase_order db (inv_po_number invoice_row) = None"
  shows "validate_invoice_id U db invoice_id =
     (ErrorResult [Text (str ''Purchase order not found'')],
      update_invoice db invoice_id (str ''error'') (str ''Purchase order not found''))"
  using assms by (simp add: validate_invoice_id_def)

lemma find_update_invoice:
  "find (\<lambda>i. inv_id i = k) xs = Some row \<Longrightarrow>
   find (\<lambda>i. inv_id i = k)
     (map (\<lambda>i. if inv_id i = k then i\<lparr>inv_status := s, inv_validation_result := v\<rparr> else i) xs)
   = Some (row\<lparr>inv_status := s, inv_validation_result := v\<rparr>)"
  by (induction xs) (auto split: if_splits)

text \<open>
  C3. A run on an invoice whose purchase order number finds no purchase order returns the
  error result with the message \<open>Purchase order not found\<close>, leaves the invoice with
  status \<open>error\<close> and that validation result, and adds no validation report.
\<close>

theorem validate_invoice_po_not_found:
  assumes key: "key = InvoiceId invoice_id
     \<or> (key = InvoiceNumber n \<and> get_invoice_id_by_number db n = Some invoice_id \<and> invoice_id \<noteq> 0)"
    and inv: "find (\<lambda>i. inv_id i = invoice_id) (invoices db) = Some invoice_row"
    and po: "select_purchase_order db (inv_po_number invoice_row) = None"
  shows "fst (validate_invoice U db key) = ErrorResult [Text (str ''Purchase order not found'')]
    \<and> find (\<lambda>i. inv_id i = invoice_id) (invoices (snd (validate_invoice U db key)))
        = Some (invoice_row\<lparr>inv_status := str ''error'',
                  inv_validation_result := Some (str ''Purchase order not found'')\<rparr>)
    \<and> validation_reports (snd (validate_invoice U db key)) = validation_reports db
    \<and> report_seq (snd (validate_invoice U db key)) = report_seq db
    \<and> purchase_orders (snd (validate_invoice U db key)) = purchase_orders db"
  unfolding validate_invoice_resolved [OF key] validate_invoice_id_no_po [OF inv po]
  using find_update_invoice [OF inv]
  by (simp add: update_invoice_def)



lemma example_orphan_db_key:
  "InvoiceNumber (str ''INV1'') = InvoiceId 1
     \<or> (InvoiceNumber (str ''INV1'') = InvoiceNumber (str ''INV1'')
        \<and> get_invoice_id_by_number example_orphan_db (str ''INV1'') = Some 1 \<and> (1::nat) \<noteq> 0)"
  by (simp add: get_invoice_id_by_number_def example_orphan_db_def example_db_def)

lemma example_orphan_db_invoice:
  "find (\<lambda>i. inv_id i = 1) (invoices example_orphan_db) =
     Some \<lparr>inv_id = 1, inv_invoice_number = Some (str ''INV1''),
          inv_po_number = Some (str ''PO100''), inv_vendor_name = Some (str ''Acme''),
          inv_invoice_date = None, inv_total_amount = Some (Fin 500),
          inv_file_path = None, inv_status = str ''pending'',
          inv_validation_result = None\<rparr>"
  by (simp add: example_orphan_db_def example_db_def)

lemma example_orphan_db_po:
  "select_purchase_order example_orphan_db
     (inv_po_number \<lparr>inv_id = 1, inv_invoice_number = Some (str ''INV1''),
          inv_po_number = Some (str ''PO100''), inv_vendor_name = Some (str ''Acme''),
          inv_invoice_date = None, inv_total_amount = Some (Fin 500),
          inv_file_path = None, inv_status = str ''pending'',
          inv_validation_result = None\<rparr>) = None"
  by (simp add: select_purchase_order_def example_orphan_db_def example_db_def)

theorem validate_invoice_po_not_found_witness:
  "\<forall>U. fst (validate_invoice U example_orphan_db (InvoiceNumber (str ''INV1'')))
       = ErrorResult [Text (str ''Purchase order not found'')]
     \<and> find (\<lambda>i. inv_id i = 1)
          (invoices (snd (validate_invoice U example_orphan_db (InvoiceNumber (str ''INV1'')))))
       = Some \<lparr>inv_id = 1, inv_invoice_number = Some (str ''INV1''),
            inv_po_number = Some (str ''PO100''), inv_vendor_name = Some (str ''Acme''),
            inv_invoice_date = None, inv_total_amount = Some (Fin 500),
            inv_file_path = None, inv_status = str ''error'',
            inv_validation_result = Some (str ''Purchase order not found'')\<rparr>
     \<and> validation_reports (snd (validate_invoice U example_orphan_db (InvoiceNumber (str ''INV1'')))) = []"
  (is "\<forall>U. ?P U")
proof
  fix U
  show "?P U"
  proof -
    have r: "validation_reports example_orphan_db = []"
      by (simp add: example_orphan_db_def example_db_def)
    show ?thesis
      using validate_invoice_po_not_found
        [OF example_orphan_db_key example_orphan_db_invoice example_orphan_db_po]
      by (simp add: r)
  qed
qed

lemma validate_invoice_id_found:
  assumes "find (\<lambda>i. inv_id i = invoice_id) (invoices db) = Some invoice_row"
    and "select_purchase_order db (inv_po_number invoice_row) = Some po"
    and "discrepancies = vendor_discrepancy U (po_vendor_name po) (inv_vendor_name invoice_row)
                      @ amount_discrepancy (po_total_amount po) (inv_total_amount invoice_row)"
    and "st = (if discrepancies \<noteq> [] then str ''discrepancies_found''
                   else str ''validated'')"
    and "validation_result =
           (if discrepancies \<noteq> []
            then str ''Discrepancies found between invoice and purchase order''
            else str ''Invoice matches purchase order'')"
    and "content = report_text (inv_invoice_number invoice_row) (inv_po_number invoice_row) st
                     (inv_vendor_name invoice_row) (po_vendor_name po)
                     (inv_total_amount invoice_row) (po_total_amount po) discrepancies"
  shows "validate_invoice_id U db invoice_id =
       (Validation st invoice_id (Suc (report_seq db)) discrepancies content,
        (update_invoice db invoice_id st validation_result)
          \<lparr>validation_reports := validation_reports db @
             [\<lparr>rep_id = Suc (report_seq db), rep_invoice_id = Some invoice_id,
               rep_report_content = content,
               rep_discrepancies = (if discrepancies \<noteq> [] then Some discrepancies else None),
               rep_approval_status = (if discrepancies \<noteq> [] then str ''requires_approval''
                                      else str ''auto_approved'')\<rparr>],
            report_seq := Suc (report_seq db)\<rparr>)"
proof -
  have u: "\<And>s v. validation_reports (update_invoice db invoice_id s v) = validation_reports db"
    "\<And>s v. report_seq (update_invoice db invoice_id s v) = report_seq db"
    by (simp_all add: update_invoice_def)
  show ?thesis
    unfolding validate_invoice_id_def Let_def
    by (simp add: assms u)
qed

lemma validate_invoice_id_reports:
  "\<exists>new. validation_reports (snd (validate_invoice_id U db invoice_id)) = validation_reports db @ new
     \<and> length new \<le> 1
     \<and> (\<forall>r \<in> set new. \<exists>ds.
           outcome_discrepancies (fst (validate_invoice_id U db invoice_id)) = Some ds
           \<and> rep_discrepancies r = (if ds = [] then None else Some ds)
           \<and> rep_approval_status r
               = (if ds = [] then str ''auto_approved'' else str ''requires_approval''))"
proof (cases "find (\<lambda>i. inv_id i = invoice_id) (invoices db)")
  case None
  then have "validate_invoice_id U db invoice_id = (ReturnsNone, db)"
    by (simp add: validate_invoice_id_def)
  then show ?thesis by simp
next
  case (Some invoice_row)
  show ?thesis
  proof (cases "select_purchase_order db (inv_po_number invoice_row)")
    case None
    have "validation_reports (snd (validate_invoice_id U db invoice_id)) = validation_reports db"
      unfolding validate_invoice_id_no_po [OF Some None] by (simp add: update_invoice_def)
    then show ?thesis by simp
  next
    case (Some po)
    note e = validate_invoice_id_found [OF \<open>find _ _ = Some invoice_row\<close> Some refl refl refl refl]
    show ?thesis unfolding e by simp
  qed
qed

text \<open>
  C2. A run adds at most one validation report, and a report it adds has approval status
  \<open>auto_approved\<close> when the discrepancies of the run are empty and
  \<open>requires_approval\<close> when they are not; the report stores no discrepancies in the
  first case and the list in the second.
\<close>

theorem validate_invoice_report_approval_status:
  "\<exists>new. validation_reports (snd (validate_invoice U db key)) = validation_reports db @ new
     \<and> length new \<le> 1
     \<and> (\<forall>r \<in> set new. \<exists>ds.
           outcome_discrepancies (fst (validate_invoice U db key)) = Some ds
           \<and> rep_discrepancies r = (if ds = [] then None else Some ds)
           \<and> rep_approval_status r
               = (if ds = [] then str ''auto_approved'' else str ''requires_approval''))"
proof (cases key)
  case (InvoiceId i)
  then have "validate_invoice U db key = validate_invoice_id U db i"
    by (simp add: validate_invoice_def)
  then show ?thesis using validate_invoice_id_reports [of U db i] by simp
next
  case (InvoiceNumber n)
  show ?thesis
  proof (cases "\<exists>i. get_invoice_id_by_number db n = Some i \<and> i \<noteq> 0")
    case True
    then obtain i where "get_invoice_id_by_number db n = Some i" "i \<noteq> 0" by blast
    then have "validate_invoice U db key = validate_invoice_id U db i"
      using InvoiceNumber by (simp add: validate_invoice_def)
    then show ?thesis using validate_invoice_id_reports [of U db i] by simp
  next
    case False
    then have "snd (validate_invoice U db key) = db"
      using InvoiceNumber by (auto simp: validate_invoice_def split: option.splits)
    then show ?thesis by simp
  qed
qed


lemma floor_rat_numeral:
  "\<lfloor>numeral a / numeral b :: rat\<rfloor> = numeral a div numeral b"
  by (metis floor_divide_of_int_eq of_int_numeral)

lemma floor_rat_neg_numeral:
  "\<lfloor>- (numeral a / numeral b) :: rat\<rfloor> = - numeral a div numeral b"
  using floor_divide_of_int_eq [of "- numeral a" "numeral b", where ?'a = rat] by simp

lemma ceiling_rat_numeral:
  "\<lceil>numeral a / numeral b :: rat\<rceil> = - (- numeral a div numeral b)"
  using ceiling_divide_eq_div [of "numeral a" "numeral b", where ?'a = rat] by simp

lemma bit_length_numeral:
  "bit_length 0 = 0"
  "bit_length 1 = 1"
  "bit_length (Suc 0) = 1"
  "bit_length (numeral Num.One) = 1"
  "bit_length (numeral (Num.Bit0 n)) = Suc (bit_length (numeral n))"
  "bit_length (numeral (Num.Bit1 n)) = Suc (bit_length (numeral n))"
  by (simp_all add: bit_length.simps [of 0] bit_length.simps [of 1] bit_length.simps [of "Suc 0"]
       bit_length.simps [of "numeral _"])

lemmas double_eval = round_double_def ilog2_def round_half_even_def pow2_def Let_def
  floor_rat_numeral floor_rat_neg_numeral ceiling_rat_numeral bit_length_numeral

lemma example_db_invoice:
  "find (\<lambda>i. inv_id i = 1) (invoices (example_db pv pa iv ia)) =
     Some \<lparr>inv_id = 1, inv_invoice_number = Some (str ''INV1''),
          inv_po_number = Some (str ''PO100''), inv_vendor_name = iv,
          inv_invoice_date = None, inv_total_amount = ia,
          inv_file_path = None, inv_status = str ''pending'',
          inv_validation_result = None\<rparr>"
  by (simp add: example_db_def)

lemma example_db_po:
  "select_purchase_order (example_db pv pa iv ia)
     (inv_po_number \<lparr>inv_id = 1, inv_invoice_number = Some (str ''INV1''),
          inv_po_number = Some (str ''PO100''), inv_vendor_name = iv,
          inv_invoice_date = None, inv_total_amount = ia,
          inv_file_path = None, inv_status = str ''pending'',
          inv_validation_result = None\<rparr>) =
     Some \<lparr>po_id = 1, po_number = Some (str ''PO100''), po_vendor_name = pv,
          po_issue_date = None, po_total_amount = pa, po_status = str ''active''\<rparr>"
  by (simp add: select_purchase_order_def example_db_def)

lemma example_db_outcome:
  "outcome_discrepancies (fst (validate_invoice U (example_db pv pa iv ia) (InvoiceId 1)))
     = Some (vendor_discrepancy U pv iv @ amount_discrepancy pa ia)"
proof -
  have "validate_invoice U (example_db pv pa iv ia) (InvoiceId 1)
      = validate_invoice_id U (example_db pv pa iv ia) 1"
    by (simp add: validate_invoice_def)
  then show ?thesis
    unfolding validate_invoice_id_found [OF example_db_invoice example_db_po refl refl refl refl]
    by simp
qed

lemma example_db_reports:
  "map rep_approval_status
     (validation_reports (snd (validate_invoice U (example_db pv pa iv ia) (InvoiceId 1))))
     = [if vendor_discrepancy U pv iv @ amount_discrepancy pa ia \<noteq> []
        then str ''requires_approval'' else str ''auto_approved'']"
proof -
  have r: "validation_reports (example_db pv pa iv ia) = []"
    by (simp add: example_db_def)
  have "validate_invoice U (example_db pv pa iv ia) (InvoiceId 1)
      = validate_invoice_id U (example_db pv pa iv ia) 1"
    by (simp add: validate_invoice_def)
  then show ?thesis
    unfolding validate_invoice_id_found [OF example_db_invoice example_db_po refl refl refl refl]
    by (simp add: r)
qed

lemma example_db_status:
  "map inv_status
     (invoices (snd (validate_invoice U (example_db pv pa iv ia) (InvoiceId 1))))
     = [if vendor_discrepancy U pv iv @ amount_discrepancy pa ia \<noteq> []
        then str ''discrepancies_found'' else str ''validated'']"
proof -
  have r: "\<And>s v. map inv_status (invoices (update_invoice (example_db pv pa iv ia) (Suc 0) s v)) = [s]"
    by (simp add: example_db_def update_invoice_def)
  have "validate_invoice U (example_db pv pa iv ia) (InvoiceId 1)
      = validate_invoice_id U (example_db pv pa iv ia) 1"
    by (simp add: validate_invoice_def)
  then show ?thesis
    unfolding validate_invoice_id_found [OF example_db_invoice example_db_po refl refl refl refl]
    by (simp add: r)
qed

lemma vendor_acme: "vendor_discrepancy U (Some (str ''Acme'')) (Some (str ''Acme Inc''))
   = [VendorName (str ''Acme'') (str ''Acme Inc'')]"
  by (simp add: vendor_discrepancy_def lower_def is_ascii_def str_def)

lemma amount_500_540: "amount_discrepancy (Some (Fin 500)) (Some (Fin 540))
   = [TotalAmount (Fin 500) (Fin 540) (Fin 40)]"
  by (simp add: amount_discrepancy_def double_eval)


theorem validate_invoice_report_approval_status_witness:
  "\<forall>U. outcome_discrepancies (fst (validate_invoice U
         (example_db (Some (str ''Acme'')) (Some (Fin 500)) (Some (str ''Acme Inc'')) (Some (Fin 540)))
         (InvoiceId 1)))
       = Some [VendorName (str ''Acme'') (str ''Acme Inc''), TotalAmount (Fin 500) (Fin 540) (Fin 40)]
     \<and> map rep_approval_status (validation_reports (snd (validate_invoice U
         (example_db (Some (str ''Acme'')) (Some (Fin 500)) (Some (str ''Acme Inc'')) (Some (Fin 540)))
         (InvoiceId 1))))
       = [str ''requires_approval'']"
  (is "\<forall>U. ?P U")
proof
  fix U
  show "?P U"
  proof -
    note t = validate_invoice_report_approval_status
      [of U
          "example_db (Some (str ''Acme'')) (Some (Fin 500)) (Some (str ''Acme Inc'')) (Some (Fin 540))"
          "InvoiceId 1"]
    show ?thesis
      unfolding example_db_outcome example_db_reports vendor_acme amount_500_540
      using t by simp
  qed
qed

lemma vendor_same: "vendor_discrepancy U (Some (str ''Acme'')) (Some (str ''Acme'')) = []"
  by (simp add: vendor_discrepancy_def)

lemma amount_same: "amount_discrepancy (Some (Fin 500)) (Some (Fin 500)) = []"
  by (simp add: amount_discrepancy_def double_eval)

lemma end_to_end_validated:
  "outcome_discrepancies (fst (validate_invoice U
       (example_db (Some (str ''Acme'')) (Some (Fin 500)) (Some (str ''Acme'')) (Some (Fin 500)))
       (InvoiceId 1))) = Some []
   \<and> map inv_status (invoices (snd (validate_invoice U
       (example_db (Some (str ''Acme'')) (Some (Fin 500)) (Some (str ''Acme'')) (Some (Fin 500)))
       (InvoiceId 1)))) = [str ''validated'']
   \<and> map rep_approval_status (validation_reports (snd (validate_invoice U
       (example_db (Some (str ''Acme'')) (Some (Fin 500)) (Some (str ''Acme'')) (Some (Fin 500)))
       (InvoiceId 1)))) = [str ''auto_approved'']"
  unfolding example_db_outcome example_db_reports example_db_status vendor_same amount_same
  by simp

lemma end_to_end_discrepancies:
  "map inv_status (invoices (snd (validate_invoice U
       (example_db (Some (str ''Acme'')) (Some (Fin 500)) (Some (str ''Acme Inc'')) (Some (Fin 540)))
       (InvoiceId 1)))) = [str ''discrepancies_found'']"
  unfolding example_db_status vendor_acme by simp

lemma vendor_discrepancy_no_amount:
  "\<not> list_ex is_amount_discrepancy (vendor_discrepancy U pv iv)"
  by (simp add: vendor_discrepancy_def split: option.splits)

lemma amount_discrepancy_no_vendor:
  "\<not> list_ex is_vendor_discrepancy (amount_discrepancy pa ia)"
  by (simp add: amount_discrepancy_def split: option.splits)

lemma amount_discrepancy_zero:
  "pa = Some (Fin 0) \<or> ia = Some (Fin 0) \<Longrightarrow> amount_discrepancy pa ia = []"
  by (auto simp: amount_discrepancy_def split: option.splits)

text \<open>
  The amount check, read off the code: both amounts are there and not zero, and the
  binary64 difference, made positive, is greater than the binary64 value of 0.01.
\<close>

lemma amount_discrepancy_iff:
  "list_ex is_amount_discrepancy (amount_discrepancy pa ia) \<longleftrightarrow>
     (\<exists>p i. pa = Some p \<and> ia = Some i \<and> p \<noteq> Fin 0 \<and> i \<noteq> Fin 0
        \<and> double_gt (double_abs (double_sub p i)) (round_double (1 / 100)))"
  by (cases pa; cases ia) (simp_all add: amount_discrepancy_def)

lemma validate_invoice_found_outcome:
  assumes key: "key = InvoiceId invoice_id
     \<or> (key = InvoiceNumber n \<and> get_invoice_id_by_number db n = Some invoice_id \<and> invoice_id \<noteq> 0)"
    and inv: "find (\<lambda>i. inv_id i = invoice_id) (invoices db) = Some invoice_row"
    and po: "select_purchase_order db (inv_po_number invoice_row) = Some po"
  shows "outcome_discrepancies (fst (validate_invoice U db key))
     = Some (vendor_discrepancy U (po_vendor_name po) (inv_vendor_name invoice_row)
             @ amount_discrepancy (po_total_amount po) (inv_total_amount invoice_row))"
  unfolding validate_invoice_resolved [OF key]
    validate_invoice_id_found [OF inv po refl refl refl refl]
  by simp

text \<open>
  C10. Presence of an amount is its truthiness: when the amount of the purchase order or
  the amount of the invoice is zero, the run records no amount discrepancy, whatever the
  other amount is.
\<close>

theorem validate_invoice_zero_amount:
  assumes key: "key = InvoiceId invoice_id
     \<or> (key = InvoiceNumber n \<and> get_invoice_id_by_number db n = Some invoice_id \<and> invoice_id \<noteq> 0)"
    and inv: "find (\<lambda>i. inv_id i = invoice_id) (invoices db) = Some invoice_row"
    and po: "select_purchase_order db (inv_po_number invoice_row) = Some po"
    and zero: "po_total_amount po = Some (Fin 0) \<or> inv_total_amount invoice_row = Some (Fin 0)"
  shows "\<exists>ds. outcome_discrepancies (fst (validate_invoice U db key)) = Some ds
           \<and> \<not> list_ex is_amount_discrepancy ds"
  unfolding validate_invoice_found_outcome [OF key inv po]
  using amount_discrepancy_zero [OF zero] vendor_discrepancy_no_amount
  by simp

theorem validate_invoice_zero_amount_witness:
  "\<forall>U. outcome_discrepancies (fst (validate_invoice U
         (example_db (Some (str ''Acme'')) (Some (Fin 0)) (Some (str ''Acme'')) (Some (Fin 1000000)))
         (InvoiceId 1))) = Some []"
  (is "\<forall>U. ?P U")
proof
  fix U
  show "?P U"
  proof -
    have z: "po_total_amount \<lparr>po_id = 1, po_number = Some (str ''PO100''),
            po_vendor_name = Some (str ''Acme''),
            po_issue_date = None, po_total_amount = Some (Fin 0), po_status = str ''active''\<rparr>
          = Some (Fin 0)
        \<or> inv_total_amount \<lparr>inv_id = 1, inv_invoice_number = Some (str ''INV1''),
            inv_po_number = Some (str ''PO100''), inv_vendor_name = Some (str ''Acme''),
            inv_invoice_date = None, inv_total_amount = Some (Fin 1000000),
            inv_file_path = None, inv_status = str ''pending'',
            inv_validation_result = None\<rparr> = Some (Fin 0)"
      by simp
    have a: "amount_discrepancy (Some (Fin 0)) (Some (Fin 1000000)) = []"
      by (rule amount_discrepancy_zero) simp
    show ?thesis
      unfolding example_db_outcome vendor_same a
      using validate_invoice_zero_amount [OF disjI1 [OF refl] example_db_invoice example_db_po z]
      by simp
  qed
qed

lemma vendor_discrepancy_iff:
  "list_ex is_vendor_discrepancy (vendor_discrepancy U a b) \<longleftrightarrow>
     (\<exists>pv iv. a = Some pv \<and> b = Some iv \<and> pv \<noteq> [] \<and> iv \<noteq> [] \<and> lower U pv \<noteq> lower U iv)"
  by (cases a; cases b) (simp_all add: vendor_discrepancy_def)

text \<open>
  C4, as the code has it. The run records a vendor discrepancy exactly when both vendor
  names are there and not empty and their lower-cased forms differ. The names are
  compared as they are stored: white space at either end counts.
\<close>

theorem validate_invoice_vendor_discrepancy:
  assumes key: "key = InvoiceId invoice_id
     \<or> (key = InvoiceNumber n \<and> get_invoice_id_by_number db n = Some invoice_id \<and> invoice_id \<noteq> 0)"
    and inv: "find (\<lambda>i. inv_id i = invoice_id) (invoices db) = Some invoice_row"
    and po: "select_purchase_order db (inv_po_number invoice_row) = Some po"
  shows "\<exists>ds. outcome_discrepancies (fst (validate_invoice U db key)) = Some ds
     \<and> (list_ex is_vendor_discrepancy ds \<longleftrightarrow>
          (\<exists>pv iv. po_vendor_name po = Some pv \<and> inv_vendor_name invoice_row = Some iv
             \<and> pv \<noteq> [] \<and> iv \<noteq> [] \<and> lower U pv \<noteq> lower U iv))"
  unfolding validate_invoice_found_outcome [OF key inv po]
  using amount_discrepancy_no_vendor vendor_discrepancy_iff
  by simp

lemma vendor_abc_corp:
  "vendor_discrepancy U (Some (str ''ABC Supplies'')) (Some (str ''ABC Corp''))
     = [VendorName (str ''ABC Supplies'') (str ''ABC Corp'')]"
  by (simp add: vendor_discrepancy_def lower_def is_ascii_def str_def)

lemma vendor_abc_lower:
  "vendor_discrepancy U (Some (str ''ABC Supplies'')) (Some (str ''abc supplies'')) = []"
  by (simp add: vendor_discrepancy_def lower_def is_ascii_def lower_char_def str_def)

lemma vendor_abc_space:
  "vendor_discrepancy U (Some (str ''ABC Supplies'')) (Some (str ''ABC Supplies ''))
     = [VendorName (str ''ABC Supplies'') (str ''ABC Supplies '')]"
  by (simp add: vendor_discrepancy_def lower_def is_ascii_def str_def)

lemma amount_100_100: "amount_discrepancy (Some (Fin 100)) (Some (Fin 100)) = []"
  by (simp add: amount_discrepancy_def double_eval)

theorem validate_invoice_vendor_discrepancy_witness:
  "\<forall>U. outcome_discrepancies (fst (validate_invoice U
         (example_db (Some (str ''ABC Supplies'')) (Some (Fin 100))
            (Some (str ''ABC Corp'')) (Some (Fin 100)))
         (InvoiceId 1)))
       = Some [VendorName (str ''ABC Supplies'') (str ''ABC Corp'')]
     \<and> outcome_discrepancies (fst (validate_invoice U
         (example_db (Some (str ''ABC Supplies'')) (Some (Fin 100))
            (Some (str ''abc supplies'')) (Some (Fin 100)))
         (InvoiceId 1)))
       = Some []"
  (is "\<forall>U. ?P U")
proof
  fix U
  show "?P U"
  proof -
    note t = validate_invoice_vendor_discrepancy [OF disjI1 [OF refl] example_db_invoice example_db_po,
        of U "Some (str ''ABC Supplies'')" "Some (Fin 100)" "Some (str ''ABC Corp'')" "Some (Fin 100)"]
    show ?thesis
      unfolding example_db_outcome vendor_abc_corp vendor_abc_lower amount_100_100
      using t by simp
  qed
qed

text \<open>
  C4 as stated fails: \<open>ABC Supplies\<close> and \<open>ABC Supplies\<close> followed by a blank are
  equal once stripped and lower-cased, and the run records a vendor discrepancy.
\<close>

theorem vendor_whitespace_counterexample:
  "\<forall>U. lower U (strip (str ''ABC Supplies'')) = lower U (strip (str ''ABC Supplies ''))
     \<and> outcome_discrepancies (fst (validate_invoice U
         (example_db (Some (str ''ABC Supplies'')) (Some (Fin 100))
            (Some (str ''ABC Supplies '')) (Some (Fin 100)))
         (InvoiceId 1)))
       = Some [VendorName (str ''ABC Supplies'') (str ''ABC Supplies '')]"
  (is "\<forall>U. ?P U")
proof
  fix U
  show "?P U"
  proof -
    have "lower U (strip (str ''ABC Supplies'')) = lower U (strip (str ''ABC Supplies ''))"
      by (simp add: strip_def str_def is_space_def)
    then show ?thesis
      unfolding example_db_outcome vendor_abc_space amount_100_100 by simp
  qed
qed

lemma round_double_100: "round_double 100 = Fin 100"
  by (simp add: double_eval)

lemma round_double_100_01:
  "round_double (10001 / 100) = Fin (7037578105208177 / 70368744177664)"
  by (simp add: double_eval)

lemma round_double_100_02:
  "round_double (10002 / 100) = Fin (7038281792649953 / 70368744177664)"
  by (simp add: double_eval)

lemma round_double_0_01:
  "round_double (1 / 100) = Fin (5764607523034235 / 576460752303423488)"
  by (simp add: double_eval)

lemma round_double_0_02:
  "round_double (2 / 100) = Fin (5764607523034235 / 288230376151711744)"
  by (simp add: double_eval)

lemma double_sub_100_01:
  "double_sub (Fin 100) (Fin (7037578105208177 / 70368744177664))
     = Fin (- (703687441777 / 70368744177664))"
  by (simp add: double_eval)

lemma double_sub_100_02:
  "double_sub (Fin 100) (Fin (7038281792649953 / 70368744177664))
     = Fin (- (1407374883553 / 70368744177664))"
  by (simp add: double_eval)

lemma amount_100_01:
  "amount_discrepancy (Some (round_double 100)) (Some (round_double (10001 / 100)))
     = [TotalAmount (Fin 100) (Fin (7037578105208177 / 70368744177664))
          (Fin (703687441777 / 70368744177664))]"
  unfolding amount_discrepancy_def round_double_100 round_double_100_01 round_double_0_01
  by (simp add: double_sub_100_01 del: double_sub.simps)

lemma amount_100_02:
  "amount_discrepancy (Some (round_double 100)) (Some (round_double (10002 / 100)))
     = [TotalAmount (Fin 100) (Fin (7038281792649953 / 70368744177664))
          (Fin (1407374883553 / 70368744177664))]"
  unfolding amount_discrepancy_def round_double_100 round_double_100_02 round_double_0_01
  by (simp add: double_sub_100_02 del: double_sub.simps)

text \<open>
  C1 at its own examples. The amounts are binary64 values. With a purchase order of
  100.00 and an invoice of 100.01 the difference computed is
  703687441777 / 70368744177664 (about 0.010000000000005116), which is greater than the
  binary64 value of 0.01, so the run records an amount discrepancy where the claim has
  none. With an invoice of 100.02 it records one whose difference is
  1407374883553 / 70368744177664 (about 0.01999999999999602), not the binary64 value
  of 0.02.
\<close>

theorem validate_invoice_amount_boundary:
  "outcome_discrepancies (fst (validate_invoice U
       (example_db (Some (str ''Acme'')) (Some (round_double 100))
          (Some (str ''Acme'')) (Some (round_double (10001 / 100))))
       (InvoiceId 1)))
     = Some [TotalAmount (Fin 100) (Fin (7037578105208177 / 70368744177664))
               (Fin (703687441777 / 70368744177664))]
   \<and> outcome_discrepancies (fst (validate_invoice U
       (example_db (Some (str ''Acme'')) (Some (round_double 100))
          (Some (str ''Acme'')) (Some (round_double (10002 / 100))))
       (InvoiceId 1)))
     = Some [TotalAmount (Fin 100) (Fin (7038281792649953 / 70368744177664))
               (Fin (1407374883553 / 70368744177664))]
   \<and> Fin (1407374883553 / 70368744177664) \<noteq> round_double (2 / 100)"
  unfolding example_db_outcome vendor_same amount_100_01 amount_100_02 round_double_0_02
  by simp

section \<open>The matcher\<close>

lemma rep_sound:
  assumes m: "\<And>s s'. s' \<in> set (m s) \<Longrightarrow> \<exists>w \<in> L. fst (snd s) = w @ fst (snd s')"
  shows "s' \<in> set (rep m greedy lo hi k fuel s) \<Longrightarrow>
     \<exists>ws. set ws \<subseteq> L \<and> fst (snd s) = concat ws @ fst (snd s')
        \<and> lo \<le> k + length ws
        \<and> (\<forall>h. hi = Some h \<longrightarrow> k + length ws \<le> h \<or> ws = [])"
proof (induction fuel arbitrary: k s)
  case 0
  then have "s' = s" "lo \<le> k" by (auto split: if_splits)
  then show ?case by (intro exI [of _ "[]"]) (auto split: option.splits)
next
  case (Suc fuel)
  from Suc.prems consider
      (stop) "s' = s" "lo \<le> k"
    | (more) s1 where "under k hi" "s1 \<in> set (m s)" "s' \<in> set (rep m greedy lo hi (Suc k) fuel s1)"
    by (auto simp: Let_def split: if_splits)
  then show ?case
  proof cases
    case stop
    then show ?thesis by (intro exI [of _ "[]"]) (auto split: option.splits)
  next
    case more
    from m [OF more(2)] obtain w where w: "w \<in> L" "fst (snd s) = w @ fst (snd s1)" by blast
    from Suc.IH [OF more(3)] obtain ws where ws: "set ws \<subseteq> L"
      "fst (snd s1) = concat ws @ fst (snd s')" "lo \<le> Suc k + length ws"
      "\<forall>h. hi = Some h \<longrightarrow> Suc k + length ws \<le> h \<or> ws = []"
      by blast
    show ?thesis
      using w ws more(1)
      by (intro exI [of _ "w # ws"]) (auto split: option.splits)
  qed
qed

lemma matches_sound:
  "s' \<in> set (matches U r ic s) \<Longrightarrow> \<exists>w \<in> lang U r ic. fst (snd s) = w @ fst (snd s')"
proof (induction r arbitrary: s s')
  case Eps
  then show ?case by simp
next
  case (Sym negated items)
  then show ?case by (cases "fst (snd s)") (auto split: if_splits)
next
  case (Seq a b)
  from Seq.prems obtain s1 where s1: "s1 \<in> set (matches U a ic s)" "s' \<in> set (matches U b ic s1)"
    by auto
  from Seq.IH(1) [OF s1(1)] obtain u where u: "u \<in> lang U a ic" "fst (snd s) = u @ fst (snd s1)"
    by blast
  from Seq.IH(2) [OF s1(2)] obtain v where v: "v \<in> lang U b ic" "fst (snd s1) = v @ fst (snd s')"
    by blast
  show ?case using u v by (intro bexI [of _ "u @ v"]) auto
next
  case (Alt a b)
  from Alt.prems have "s' \<in> set (matches U a ic s) \<or> s' \<in> set (matches U b ic s)" by simp
  then show ?case
  proof
    assume "s' \<in> set (matches U a ic s)"
    from Alt.IH(1) [OF this] obtain w where "w \<in> lang U a ic" "fst (snd s) = w @ fst (snd s')"
      by blast
    then show ?thesis by (intro bexI [of _ w]) simp_all
  next
    assume "s' \<in> set (matches U b ic s)"
    from Alt.IH(2) [OF this] obtain w where "w \<in> lang U b ic" "fst (snd s) = w @ fst (snd s')"
      by blast
    then show ?thesis by (intro bexI [of _ w]) simp_all
  qed
next
  case (Rep lo hi greedy r)
  from Rep.prems have "s' \<in> set (rep (matches U r ic) greedy lo hi 0 (Suc (length (fst (snd s)))) s)"
    by simp
  from rep_sound [where L = "lang U r ic", OF Rep.IH this]
  obtain ws where "set ws \<subseteq> lang U r ic" "fst (snd s) = concat ws @ fst (snd s')"
    "lo \<le> 0 + length ws" "\<forall>h. hi = Some h \<longrightarrow> 0 + length ws \<le> h \<or> ws = []"
    by blast
  then show ?case
    by (intro bexI [of _ "concat ws"]) (auto split: option.splits intro!: exI [of _ ws])
next
  case (Grp n r)
  from Grp.prems obtain s1 where s1: "s1 \<in> set (matches U r ic s)"
    "fst (snd s') = fst (snd s1)" by auto
  from Grp.IH [OF s1(1)] obtain w where "w \<in> lang U r ic" "fst (snd s) = w @ fst (snd s1)"
    by blast
  with s1(2) show ?case by (intro bexI [of _ w]) simp_all
next
  case Bnd
  then show ?case by (auto split: if_splits)
qed

lemma matches_no_group:
  "no_group r \<Longrightarrow> s' \<in> set (matches U r ic s) \<Longrightarrow> snd (snd s') = snd (snd s)"
proof (induction r arbitrary: s s')
  case (Rep lo hi greedy r)
  have R: "\<And>k fuel s s'. s' \<in> set (rep (matches U r ic) greedy lo hi k fuel s)
      \<Longrightarrow> snd (snd s') = snd (snd s)"
  proof -
    fix k fuel s s'
    show "s' \<in> set (rep (matches U r ic) greedy lo hi k fuel s) \<Longrightarrow> snd (snd s') = snd (snd s)"
    proof (induction fuel arbitrary: k s)
      case 0
      then show ?case by (auto split: if_splits)
    next
      case (Suc fuel)
      from Suc.prems consider
        (stop) "s' = s"
        | (more) s1 where "s1 \<in> set (matches U r ic s)"
            "s' \<in> set (rep (matches U r ic) greedy lo hi (Suc k) fuel s1)"
        by (auto simp: Let_def split: if_splits)
      then show ?case
      proof cases
        case stop
        then show ?thesis by simp
      next
        case more
        from Rep.IH [OF _ more(1)] Rep.prems(1) Suc.IH [OF more(2)] show ?thesis by simp
      qed
    qed
  qed
  from Rep.prems(2)
  have "s' \<in> set (rep (matches U r ic) greedy lo hi 0 (Suc (length (fst (snd s)))) s)"
    by simp
  then show ?case by (rule R)
next
  case (Sym negated items)
  then show ?case by (cases "fst (snd s)") (auto split: if_splits)
next
  case (Seq a b)
  from Seq.prems(2) obtain s1 where s1: "s1 \<in> set (matches U a ic s)" "s' \<in> set (matches U b ic s1)"
    by auto
  from Seq.IH(1) [OF _ s1(1)] Seq.IH(2) [OF _ s1(2)] Seq.prems(1) show ?case by simp
qed (auto split: if_splits)

lemma no_group_seqs: "list_all no_group rs \<Longrightarrow> no_group (seqs rs)"
  by (induction rs) (simp_all add: seqs_def)

lemma seqs_Cons: "seqs (r # rs) = Seq r (seqs rs)"
  by (simp add: seqs_def)

lemma matches_seqs_group:
  assumes post: "list_all no_group post"
  shows "s' \<in> set (matches U (seqs (pre @ Grp n r # post)) ic s) \<Longrightarrow>
    \<exists>w \<in> lang U r ic. map_of (snd (snd s')) n = Some w"
proof (induction pre arbitrary: s)
  case Nil
  from Nil obtain s1 where s1: "s1 \<in> set (matches U (Grp n r) ic s)"
    "s' \<in> set (matches U (seqs post) ic s1)"
    by (auto simp: seqs_Cons)
  from s1(1) obtain s0 where s0: "s0 \<in> set (matches U r ic s)"
    "snd (snd s1) = (n, take (length (fst (snd s)) - length (fst (snd s0))) (fst (snd s)))
       # snd (snd s0)"
    by auto
  from matches_sound [OF s0(1)] obtain w where w: "w \<in> lang U r ic"
    "fst (snd s) = w @ fst (snd s0)" by blast
  have "snd (snd s') = snd (snd s1)"
    by (rule matches_no_group [OF no_group_seqs [OF post] s1(2)])
  with s0(2) w show ?case by (intro bexI [of _ w]) simp_all
next
  case (Cons a pre)
  from Cons.prems obtain s1 where "s' \<in> set (matches U (seqs (pre @ Grp n r # post)) ic s1)"
    by (auto simp: seqs_Cons)
  then show ?case by (rule Cons.IH)
qed

lemma match_at_matches:
  assumes "match_at U r ic prev t = Some m"
  shows "\<exists>s s'. s' \<in> set (matches U r ic s) \<and> snd m = snd (snd s')"
proof (cases "matches U r ic (prev, t, [])")
  case Nil
  with assms show ?thesis by (simp add: match_at_def)
next
  case (Cons x xs)
  with assms have "snd m = snd (snd x)" by (auto simp: match_at_def)
  moreover from Cons have "x \<in> set (matches U r ic (prev, t, []))" by simp
  ultimately show ?thesis by blast
qed

lemma search_from_matches:
  "search_from U r ic prev t = Some m \<Longrightarrow>
   \<exists>s s'. s' \<in> set (matches U r ic s) \<and> snd m = snd (snd s')"
proof (induction t arbitrary: prev)
  case Nil
  then have "match_at U r ic prev [] = Some m" by simp
  then show ?case by (rule match_at_matches)
next
  case (Cons c cs)
  show ?case
  proof (cases "match_at U r ic prev (c # cs)")
    case None
    with Cons.prems have "search_from U r ic (Some c) cs = Some m" by simp
    then show ?thesis by (rule Cons.IH)
  next
    case (Some m')
    with Cons.prems have "match_at U r ic prev (c # cs) = Some m" by simp
    then show ?thesis by (rule match_at_matches)
  qed
qed

lemma search_group:
  assumes "search U (seqs (pre @ Grp n r # post)) ic t = Some m"
    and "list_all no_group post" and "n \<noteq> 0"
  shows "\<exists>w \<in> lang U r ic. group_re m n = Some w"
proof -
  from assms(1) obtain s s' where "s' \<in> set (matches U (seqs (pre @ Grp n r # post)) ic s)"
    "snd m = snd (snd s')"
    unfolding search_def by (blast dest: search_from_matches)
  with matches_seqs_group [OF assms(2), of s' U pre n r ic s] assms(3)
  show ?thesis by (simp add: group_re_def)
qed

lemma in_class_digit: "in_class U ic False [Digit] c = is_digit U c"
  by (simp add: in_class_def)

lemma in_class_comma: "in_class U ic False [Ch 44] c = (c = 44)"
  by (simp add: in_class_def is_upper_def is_lower_def)

lemma in_class_point: "in_class U ic False [Ch 46] c = (c = 46)"
  by (simp add: in_class_def is_upper_def is_lower_def)

lemma concat_digits:
  "set ws \<subseteq> {[c] |c. is_digit U c} \<Longrightarrow>
   list_all (is_digit U) (concat ws) \<and> length (concat ws) = length ws"
  by (induction ws) auto

lemma lang_digits:
  assumes "w \<in> lang U (Rep lo hi greedy (cls [Digit])) ic"
  shows "list_all (is_digit U) w \<and> lo \<le> length w"
proof -
  from assms obtain ws where ws: "w = concat ws" "set ws \<subseteq> {[c] |c. is_digit U c}"
    "lo \<le> length ws"
    by (auto simp: cls_def in_class_digit)
  from concat_digits [OF ws(2)] ws(1,3) show ?thesis by simp
qed

lemma remove_char_digits: "list_all (is_digit U) ds \<Longrightarrow> remove_char 44 ds = ds"
  by (induction ds) (auto simp: remove_char_def is_digit_def decimal_def)

lemma remove_char_append: "remove_char a (u @ v) = remove_char a u @ remove_char a v"
  by (simp add: remove_char_def)

lemma concat_remove_digits:
  "(\<And>w. w \<in> set ws \<Longrightarrow> list_all (is_digit U) (remove_char 44 w)) \<Longrightarrow>
   list_all (is_digit U) (remove_char 44 (concat ws))"
  by (induction ws) (auto simp: remove_char_append remove_char_def)

lemma lang_comma_group:
  assumes "w \<in> lang U (seqs [chr CHR '','', times_re 3 3 (cls [Digit])]) ic"
  shows "list_all (is_digit U) (remove_char 44 w)"
proof -
  from assms obtain ds where w: "w = 44 # ds"
    and ds: "ds \<in> lang U (Rep 3 (Some 3) True (cls [Digit])) ic"
    by (auto simp: seqs_def chr_def times_re_def in_class_comma)
  from lang_digits [OF ds] have d: "list_all (is_digit U) ds" by simp
  from w have "remove_char 44 w = remove_char 44 ds" by (simp add: remove_char_def)
  also from d have "\<dots> = ds" by (rule remove_char_digits)
  finally show ?thesis using d by simp
qed

lemma lang_comma_groups:
  assumes "v \<in> lang U (star_re (seqs [chr CHR '','', times_re 3 3 (cls [Digit])])) ic"
  shows "list_all (is_digit U) (remove_char 44 v)"
proof -
  from assms obtain ws where "v = concat ws"
    "set ws \<subseteq> lang U (seqs [chr CHR '','', times_re 3 3 (cls [Digit])]) ic"
    by (auto simp: star_re_def)
  then show ?thesis
    using lang_comma_group by (auto intro!: concat_remove_digits)
qed

lemma lang_fraction:
  assumes "x \<in> lang U (opt_re (seqs [chr CHR ''.'', times_re 2 2 (cls [Digit])])) ic"
  shows "x = [] \<or> (\<exists>ds. x = 46 # ds \<and> list_all (is_digit U) ds)"
proof -
  from assms obtain ws where ws: "x = concat ws"
    "set ws \<subseteq> lang U (seqs [chr CHR ''.'', times_re 2 2 (cls [Digit])]) ic" "length ws \<le> 1"
    by (auto simp: opt_re_def)
  show ?thesis
  proof (cases ws)
    case Nil
    with ws(1) show ?thesis by simp
  next
    case (Cons w ws')
    with ws(3) have "ws' = []" by simp
    with Cons ws(1,2) have x: "x \<in> lang U (seqs [chr CHR ''.'', times_re 2 2 (cls [Digit])]) ic"
      by simp
    then obtain ds where xd: "x = 46 # ds"
      and ds: "ds \<in> lang U (Rep 2 (Some 2) True (cls [Digit])) ic"
      by (auto simp: seqs_def chr_def times_re_def in_class_point)
    from lang_digits [OF ds] xd show ?thesis by simp
  qed
qed

lemma is_digit_to_ascii:
  assumes "is_digit U c"
  shows "\<exists>v. to_ascii U (c # cs) = v # to_ascii U cs \<and> ascii_digit v"
proof (cases "c < 128")
  case True
  with assms have "48 \<le> c \<and> c \<le> 57"
    by (simp add: is_digit_def decimal_def split: if_splits)
  then show ?thesis by (simp add: ascii_digit_def)
next
  case False
  with assms obtain v where v: "\<not> is_space c" "decimal U c = Some v" "v < 10"
    by (auto simp: is_digit_def decimal_def split: if_splits)
  with False show ?thesis by (simp add: ascii_digit_def)
qed

lemma to_ascii_digits:
  "list_all (is_digit U) ds \<Longrightarrow>
   \<exists>D. to_ascii U (ds @ rest) = D @ to_ascii U rest \<and> list_all ascii_digit D
        \<and> length D = length ds"
proof (induction ds)
  case Nil
  then show ?case by simp
next
  case (Cons c ds)
  then obtain D where D: "to_ascii U (ds @ rest) = D @ to_ascii U rest"
    "list_all ascii_digit D" "length D = length ds"
    by auto
  from Cons.prems have "is_digit U c" by simp
  from is_digit_to_ascii [OF this, of "ds @ rest"]
  obtain v where v: "to_ascii U (c # ds @ rest) = v # to_ascii U (ds @ rest)" "ascii_digit v"
    by blast
  show ?case
    using D v by (intro exI [of _ "v # D"]) simp
qed

lemma float_of_ascii_decimal:
  assumes "D \<noteq> []" "list_all ascii_digit D"
    and "x = [] \<or> (\<exists>ds. x = 46 # ds \<and> list_all ascii_digit ds)"
  shows "\<exists>d. float_of_ascii (D @ x) = Inr d"
proof -
  have D: "\<And>c. c \<in> set D \<Longrightarrow> ascii_digit c"
    using assms(2) by (simp add: list_all_iff)
  from assms(3) show ?thesis
  proof
    assume "x = []"
    then have t: "takeWhile ascii_digit (D @ x) = D" and d: "dropWhile ascii_digit (D @ x) = []"
      using D by simp_all
    show ?thesis unfolding float_of_ascii_def Let_def t d using assms(1) by simp
  next
    assume "\<exists>ds. x = 46 # ds \<and> list_all ascii_digit ds"
    then obtain ds where x: "x = 46 # ds" "list_all ascii_digit ds" by blast
    have "\<not> ascii_digit 46" by (simp add: ascii_digit_def)
    then have t: "takeWhile ascii_digit (D @ x) = D"
      and d: "dropWhile ascii_digit (D @ x) = 46 # ds"
      using D x(1) by (simp_all add: takeWhile_append2 dropWhile_append2)
    show ?thesis unfolding float_of_ascii_def Let_def t d using assms(1) x(2) by simp
  qed
qed

lemma float_of_str_decimal:
  assumes "D \<noteq> []" "list_all (is_digit U) D"
    and "x = [] \<or> (\<exists>ds. x = 46 # ds \<and> list_all (is_digit U) ds)"
  shows "\<exists>d. float_of_str U (D @ x) = Inr d"
proof -
  from to_ascii_digits [OF assms(2), of x]
  obtain A where A: "to_ascii U (D @ x) = A @ to_ascii U x" "list_all ascii_digit A"
    "length A = length D"
    by blast
  from A(3) assms(1) have n: "A \<noteq> []" by auto
  from assms(3)
  have "to_ascii U x = [] \<or> (\<exists>ds. to_ascii U x = 46 # ds \<and> list_all ascii_digit ds)"
  proof
    assume "x = []"
    then show ?thesis by simp
  next
    assume "\<exists>ds. x = 46 # ds \<and> list_all (is_digit U) ds"
    then obtain ds where x: "x = 46 # ds" "list_all (is_digit U) ds" by blast
    from to_ascii_digits [OF x(2), of "[]"]
    obtain B where "to_ascii U ds = B" "list_all ascii_digit B" by auto
    with x(1) show ?thesis by simp
  qed
  from float_of_ascii_decimal [OF n A(2) this]
  show ?thesis by (simp add: float_of_str_def A(1))
qed

lemma number_float:
  assumes "w \<in> lang U number_re ic"
  shows "\<exists>d. float_of_str U (remove_char 44 w) = Inr d"
proof -
  from assms obtain u v x where w: "w = u @ v @ x"
    and u: "u \<in> lang U (plus_re (cls [Digit])) ic"
    and v: "v \<in> lang U (star_re (seqs [chr CHR '','', times_re 3 3 (cls [Digit])])) ic"
    and x: "x \<in> lang U (opt_re (seqs [chr CHR ''.'', times_re 2 2 (cls [Digit])])) ic"
    unfolding number_re_def seqs_def by auto
  from u have ud: "list_all (is_digit U) u" "1 \<le> length u"
    using lang_digits [of u U 1 None True ic] by (simp_all add: plus_re_def)
  note vd = lang_comma_groups [OF v]
  from lang_fraction [OF x] have xd: "x = [] \<or> (\<exists>ds. x = 46 # ds \<and> list_all (is_digit U) ds)" .
  then have rx: "remove_char 44 x = x"
  proof
    assume "x = []"
    then show ?thesis by (simp add: remove_char_def)
  next
    assume "\<exists>ds. x = 46 # ds \<and> list_all (is_digit U) ds"
    then obtain ds where x: "x = 46 # ds" and d: "list_all (is_digit U) ds" by blast
    from x have "remove_char 44 x = 46 # remove_char 44 ds" by (simp add: remove_char_def)
    also from d have "remove_char 44 ds = ds" by (rule remove_char_digits)
    finally show ?thesis using x by simp
  qed
  have e: "remove_char 44 w = (u @ remove_char 44 v) @ x"
    using w ud(1) rx by (simp add: remove_char_append remove_char_digits)
  have n: "u @ remove_char 44 v \<noteq> []" using ud(2) by auto
  have a: "list_all (is_digit U) (u @ remove_char 44 v)" using ud(1) vd by simp
  from float_of_str_decimal [OF n a xd] show ?thesis unfolding e .
qed

lemma amount_of_number:
  assumes "search U (seqs (pre @ [Grp 1 number_re])) ic text = Some m"
  shows "\<exists>a. amount_of U m = Inr a"
proof -
  from search_group [of U pre 1 number_re "[]" ic "text" m] assms
  obtain w where "w \<in> lang U number_re ic" "group_re m 1 = Some w" by auto
  with number_float [of w U ic] show ?thesis by (simp add: amount_of_def)
qed

lemma optional_amount_number:
  "\<exists>a. optional_amount U (seqs (pre @ [Grp 1 number_re])) text = Inr a"
proof (cases "search U (seqs (pre @ [Grp 1 number_re])) True text")
  case None
  then show ?thesis by (simp add: optional_amount_def)
next
  case (Some m)
  from amount_of_number [OF Some] obtain a where "amount_of U m = Inr a" by blast
  with Some show ?thesis by (simp add: optional_amount_def)
qed

lemma amount_re_shape:
  "amount_re = seqs ([lit ''total'', spaces, lit ''amount'', spaces, opt_re (cls [Ch 58, Ch 36]),
      spaces] @ [Grp 1 number_re])"
  by (simp add: amount_re_def)

lemma alt_amount_re_shape:
  "alt_amount_re = seqs ([alts [lit ''total'', seqs [lit ''amount'', spaces, lit ''due''],
                 seqs [lit ''balance'', spaces, lit ''due''],
                 seqs [lit ''grand'', spaces, lit ''total'']],
           separators, currency_sign, spaces] @ [Grp 1 number_re])"
  by (simp add: alt_amount_re_def)

lemma tax_re_shape:
  "tax_re = seqs ([alts [lit ''tax'', lit ''vat'', lit ''gst''], separators, currency_sign,
      spaces] @ [Grp 1 number_re])"
  by (simp add: tax_re_def)

lemma subtotal_re_shape:
  "subtotal_re = seqs ([alts [lit ''subtotal'', seqs [lit ''sub'', spaces, lit ''total'']],
      separators, currency_sign, spaces] @ [Grp 1 number_re])"
  by (simp add: subtotal_re_def)

lemma alt_amount_returns: "\<exists>a. optional_amount U alt_amount_re text = Inr a"
  unfolding alt_amount_re_shape by (rule optional_amount_number)

lemma extract_total_amount_returns: "\<exists>a. extract_total_amount U text = Inr a"
proof (cases "search U amount_re True text")
  case None
  with alt_amount_returns [of U "text"]
  show ?thesis by (simp add: extract_total_amount_def)
next
  case (Some m)
  from amount_of_number [OF Some [unfolded amount_re_shape]]
  obtain a where "amount_of U m = Inr a" by blast
  with Some show ?thesis by (simp add: extract_total_amount_def)
qed

lemma tax_returns: "\<exists>a. optional_amount U tax_re text = Inr a"
  unfolding tax_re_shape by (rule optional_amount_number)

lemma subtotal_returns: "\<exists>a. optional_amount U subtotal_re text = Inr a"
  unfolding subtotal_re_shape by (rule optional_amount_number)

lemma vendor_re_shape:
  "vendor_re = seqs ([alts [lit ''vendor'', lit ''supplier'', lit ''from'',
                 seqs [lit ''bill'', spaces, lit ''from''],
                 seqs [lit ''sold'', spaces, lit ''by'']],
           separators] @
           Grp 1 (lazy_plus_re (cls [Range 65 90, Range 97 122, Range 48 57, Space,
                                   Ch 46, Ch 44, Ch 38])) #
           [alts [cls [Ch 10], lit ''Inc.'', seqs [Bnd, lit ''LLC'', Bnd],
                 seqs [Bnd, lit ''Ltd'', Bnd],
                 seqs [Bnd, lit ''Corp'', opt_re (chr CHR ''.''), Bnd]]])"
  by (simp add: vendor_re_def)

lemma vendor_re_post:
  "list_all no_group [alts [cls [Ch 10], lit ''Inc.'', seqs [Bnd, lit ''LLC'', Bnd],
                 seqs [Bnd, lit ''Ltd'', Bnd],
                 seqs [Bnd, lit ''Corp'', opt_re (chr CHR ''.''), Bnd]]]"
  by (simp add: seqs_def lit_def chr_def cls_def opt_re_def)

lemma one_not_zero: "(1::nat) \<noteq> 0"
  by simp

lemma vendor_group:
  assumes "search U vendor_re True text = Some m"
  shows "\<exists>g. group_re m 1 = Some g"
  using search_group [OF assms [unfolded vendor_re_shape] vendor_re_post one_not_zero]
  by blast

lemma sender_re_shape:
  "sender_re = seqs ([] @ Grp 1 (plus_re (Sym True [Ch 60, Ch 64])) # [chr CHR ''@''])"
  by (simp add: sender_re_def)

lemma sender_re_post: "list_all no_group [chr CHR ''@'']"
  by (simp add: chr_def)

lemma sender_group:
  assumes "search U sender_re False sender = Some m"
  shows "\<exists>g. group_re m 1 = Some g"
  using search_group [OF assms [unfolded sender_re_shape] sender_re_post one_not_zero]
  by blast

lemma currency_re_shape:
  "currency_re = seqs ([alts [lit ''currency'', lit ''in''], separators] @
           Grp 1 (alts [lit ''USD'', lit ''EUR'', lit ''GBP'', lit ''JPY'', lit ''CAD'',
                        lit ''AUD'', lit ''CHF'']) # [])"
  by (simp add: currency_re_def)

lemma no_post: "list_all no_group []"
  by simp

lemma currency_group:
  assumes "search U currency_re True text = Some m"
  shows "\<exists>g. group_re m 1 = Some g"
  using search_group [OF assms [unfolded currency_re_shape] no_post one_not_zero]
  by blast

lemma extract_vendor_name_returns: "\<exists>v. extract_vendor_name U text email_sender = Inr v"
proof (cases "search U vendor_re True text")
  case (Some m)
  from vendor_group [OF Some] obtain g where "group_re m 1 = Some g" by blast
  with Some show ?thesis by (simp add: extract_vendor_name_def)
next
  case None
  show ?thesis
  proof (cases email_sender)
    case no_sender: None
    with None show ?thesis by (simp add: extract_vendor_name_def)
  next
    case (Some sender)
    show ?thesis
    proof (cases "search U sender_re False sender")
      case no_match: None
      with None Some show ?thesis by (simp add: extract_vendor_name_def)
    next
      case matched: (Some m)
      from sender_group [OF matched] obtain g where "group_re m 1 = Some g" by blast
      with None Some matched show ?thesis by (simp add: extract_vendor_name_def)
    qed
  qed
qed

lemma extract_currency_returns: "\<exists>c. extract_currency U text = Inr c"
proof (cases "search U currency_re True text")
  case (Some m)
  from currency_group [OF Some] obtain g where "group_re m 1 = Some g" by blast
  with Some show ?thesis by (simp add: extract_currency_def)
next
  case None
  then show ?thesis by (simp add: extract_currency_def)
qed

section \<open>The extractor\<close>

text \<open>
  C9. For every text, file path, subject and sender the extractor returns a dictionary
  and raises nothing; a field none of whose patterns matches is \<open>None\<close> (the vendor
  also needs the sender to give nothing); with no currency code and no currency sign the
  currency is \<open>USD\<close>; the status is \<open>pending\<close>.
\<close>

theorem extract_invoice_details_returns:
  "\<exists>d. extract_invoice_details_from_text U text filepath email_subject email_sender = Inr d
     \<and> (search U invoice_re True text = None \<and> search U alt_invoice_re True text = None
          \<longrightarrow> invoice_number d = None)
     \<and> (search U po_re True text = None \<and> search U alt_po_re True text = None
          \<longrightarrow> purchase_order d = None)
     \<and> (search U amount_re True text = None \<and> search U alt_amount_re True text = None
          \<longrightarrow> total_amount d = None)
     \<and> (search U date_re False text = None \<and> search U alt_date_re True text = None
          \<longrightarrow> invoice_date d = None)
     \<and> (search U vendor_re True text = None
          \<and> (case email_sender of None \<Rightarrow> True
               | Some sender \<Rightarrow> sender = [] \<or> search U sender_re False sender = None)
          \<longrightarrow> vendor_name d = None)
     \<and> (search U due_date_re True text = None \<longrightarrow> due_date d = None)
     \<and> (search U tax_re True text = None \<longrightarrow> tax_amount d = None)
     \<and> (search U subtotal_re True text = None \<longrightarrow> subtotal d = None)
     \<and> (search U currency_re True text = None \<and> search U (cls [Ch 36]) False text = None
          \<and> search U (cls [Ch 8364]) False text = None \<and> search U (cls [Ch 163]) False text = None
          \<longrightarrow> currency d = str ''USD'')
     \<and> status d = str ''pending''
     \<and> file_path d = filepath"
proof -
  obtain amount where amount: "extract_total_amount U text = Inr amount"
    using extract_total_amount_returns by blast
  obtain vendor where vendor: "extract_vendor_name U text email_sender = Inr vendor"
    using extract_vendor_name_returns by blast
  obtain tax where tax: "optional_amount U tax_re text = Inr tax"
    using tax_returns by blast
  obtain sub where sub: "optional_amount U subtotal_re text = Inr sub"
    using subtotal_returns by blast
  obtain cur where cur: "extract_currency U text = Inr cur"
    using extract_currency_returns by blast
  have a: "search U amount_re True text = None \<and> search U alt_amount_re True text = None
      \<longrightarrow> amount = None"
    using amount by (auto simp: extract_total_amount_def optional_amount_def)
  have v: "search U vendor_re True text = None
          \<and> (case email_sender of None \<Rightarrow> True
               | Some sender \<Rightarrow> sender = [] \<or> search U sender_re False sender = None)
          \<longrightarrow> vendor = None"
    using vendor by (auto simp: extract_vendor_name_def split: option.splits if_splits)
  have t: "search U tax_re True text = None \<longrightarrow> tax = None"
    using tax by (auto simp: optional_amount_def)
  have s: "search U subtotal_re True text = None \<longrightarrow> sub = None"
    using sub by (auto simp: optional_amount_def)
  have c: "search U currency_re True text = None \<and> search U (cls [Ch 36]) False text = None
          \<and> search U (cls [Ch 8364]) False text = None \<and> search U (cls [Ch 163]) False text = None
          \<longrightarrow> cur = str ''USD''"
    using cur by (auto simp: extract_currency_def)
  show ?thesis
    using a v t s c
    by (simp add: extract_invoice_details_from_text_def amount vendor tax sub cur
          first_group_def extract_invoice_date_def extract_due_date_def)
qed

section \<open>The detector\<close>

text \<open>
  C5, as the code has it. With fewer than two keywords of the vocabulary in the
  lower-cased text, the detector answers true exactly when the lower-cased text matches
  both \<open>invoice\s*#\s*\w+\<close> and \<open>total\s*[:$]?\s*\d+\<close>, and false otherwise.
\<close>

theorem is_potential_invoice_few_keywords:
  assumes "keyword_matches (lower U text) < 2"
  shows "is_potential_invoice U text \<longleftrightarrow>
     search U invoice_hash_re False (lower U text) \<noteq> None
     \<and> search U total_digits_re False (lower U text) \<noteq> None"
  using assms by (simp add: is_potential_invoice_def Let_def)

lemmas re_defs = seqs_def lit_def chr_def cls_def star_re_def plus_re_def lazy_plus_re_def
  opt_re_def times_re_def spaces_def separators_def currency_sign_def

lemmas eval_defs = search_def match_at_def in_class_def lower_char_def upper_char_def
  is_space_def is_digit_def is_word_def decimal_def tolower_def folds_to_def extra_cases_def
  is_upper_def is_lower_def str_def Let_def

lemma counter_text_keywords: "keyword_matches (lower U (str ''invoice #1 total 5'')) = 1"
  by (simp add: keyword_matches_def invoice_keywords_def lower_def is_ascii_def lower_char_def
        str_def)

lemma counter_text_hash:
  "search U invoice_hash_re False (lower U (str ''invoice #1 total 5'')) \<noteq> None"
  by (simp add: invoice_hash_re_def lower_def is_ascii_def re_defs eval_defs)

lemma counter_text_total:
  "search U total_digits_re False (lower U (str ''invoice #1 total 5'')) \<noteq> None"
  by (simp add: total_digits_re_def lower_def is_ascii_def re_defs eval_defs)

text \<open>
  C5 as stated fails: \<open>invoice #1 total 5\<close> holds one keyword of the vocabulary,
  \<open>invoice\<close>, and the detector answers true, by its third rule.
\<close>

theorem is_potential_invoice_counterexample:
  "\<forall>U. keyword_matches (lower U (str ''invoice #1 total 5'')) = 1
     \<and> is_potential_invoice U (str ''invoice #1 total 5'')"
  (is "\<forall>U. ?P U")
proof
  fix U
  show "?P U"
    by (simp add: is_potential_invoice_def Let_def counter_text_keywords counter_text_hash
          counter_text_total)
qed

lemma plain_text_keywords: "keyword_matches (lower U (str ''Invoice 4412'')) = 1"
  by (simp add: keyword_matches_def invoice_keywords_def lower_def is_ascii_def lower_char_def
        str_def)

lemma plain_text_total:
  "search U total_digits_re False (lower U (str ''Invoice 4412'')) = None"
  by (simp add: total_digits_re_def lower_def is_ascii_def re_defs eval_defs)

theorem is_potential_invoice_few_keywords_witness:
  "\<forall>U. keyword_matches (lower U (str ''Invoice 4412'')) < 2
     \<and> \<not> is_potential_invoice U (str ''Invoice 4412'')"
  (is "\<forall>U. ?P U")
proof
  fix U
  show "?P U"
  proof -
    have h: "keyword_matches (lower U (str ''Invoice 4412'')) < 2"
      by (simp add: plain_text_keywords)
    from is_potential_invoice_few_keywords [OF h] plain_text_total h
    show ?thesis by simp
  qed
qed

section \<open>The extractor on examples\<close>

lemma boundary_invoice_re: "search U invoice_re True boundary_text = Some (str ''Invoice # 4412'', [(1, str ''4412'')])"
  by (simp add: invoice_re_def boundary_text_def re_defs eval_defs)

lemma boundary_po_re: "search U po_re True boundary_text = None"
  by (simp add: po_re_def boundary_text_def re_defs eval_defs)

lemma boundary_alt_po_re: "search U alt_po_re True boundary_text = None"
  by (simp add: alt_po_re_def token_re_def boundary_text_def re_defs eval_defs)

lemma boundary_amount_re: "search U amount_re True boundary_text = None"
  by (simp add: amount_re_def number_re_def boundary_text_def re_defs eval_defs)

lemma boundary_alt_amount_re: "search U alt_amount_re True boundary_text = None"
  by (simp add: alt_amount_re_def number_re_def boundary_text_def re_defs eval_defs)

lemma boundary_date_re: "search U date_re False boundary_text = None"
  by (simp add: date_re_def boundary_text_def re_defs eval_defs)

lemma boundary_alt_date_re: "search U alt_date_re True boundary_text = None"
  by (simp add: alt_date_re_def labelled_date_re_def boundary_text_def re_defs eval_defs)

lemma boundary_vendor_re: "search U vendor_re True boundary_text = None"
  by (simp add: vendor_re_def boundary_text_def re_defs eval_defs)

lemma boundary_due_date_re: "search U due_date_re True boundary_text = None"
  by (simp add: due_date_re_def labelled_date_re_def boundary_text_def re_defs eval_defs)

lemma boundary_tax_re: "search U tax_re True boundary_text = None"
  by (simp add: tax_re_def number_re_def boundary_text_def re_defs eval_defs)

lemma boundary_subtotal_re: "search U subtotal_re True boundary_text = None"
  by (simp add: subtotal_re_def number_re_def boundary_text_def re_defs eval_defs)

lemma boundary_currency_re: "search U currency_re True boundary_text = None"
  by (simp add: currency_re_def boundary_text_def re_defs eval_defs)

lemma plain_invoice_re: "search U invoice_re True plain_text = None"
  by (simp add: invoice_re_def plain_text_def re_defs eval_defs)

lemma plain_alt_invoice_re: "search U alt_invoice_re True plain_text = None"
  by (simp add: alt_invoice_re_def token_re_def plain_text_def re_defs eval_defs)

lemma plain_po_re: "search U po_re True plain_text = None"
  by (simp add: po_re_def plain_text_def re_defs eval_defs)

lemma plain_alt_po_re: "search U alt_po_re True plain_text = None"
  by (simp add: alt_po_re_def token_re_def plain_text_def re_defs eval_defs)

lemma plain_amount_re: "search U amount_re True plain_text = None"
  by (simp add: amount_re_def number_re_def plain_text_def re_defs eval_defs)

lemma plain_alt_amount_re: "search U alt_amount_re True plain_text = None"
  by (simp add: alt_amount_re_def number_re_def plain_text_def re_defs eval_defs)

lemma plain_date_re: "search U date_re False plain_text = None"
  by (simp add: date_re_def plain_text_def re_defs eval_defs)

lemma plain_alt_date_re: "search U alt_date_re True plain_text = None"
  by (simp add: alt_date_re_def labelled_date_re_def plain_text_def re_defs eval_defs)

lemma plain_vendor_re: "search U vendor_re True plain_text = None"
  by (simp add: vendor_re_def plain_text_def re_defs eval_defs)

lemma plain_due_date_re: "search U due_date_re True plain_text = None"
  by (simp add: due_date_re_def labelled_date_re_def plain_text_def re_defs eval_defs)

lemma plain_tax_re: "search U tax_re True plain_text = None"
  by (simp add: tax_re_def number_re_def plain_text_def re_defs eval_defs)

lemma plain_subtotal_re: "search U subtotal_re True plain_text = None"
  by (simp add: subtotal_re_def number_re_def plain_text_def re_defs eval_defs)

lemma plain_currency_re: "search U currency_re True plain_text = None"
  by (simp add: currency_re_def plain_text_def re_defs eval_defs)

lemma boundary_dollar: "search U (cls [Ch 36]) False boundary_text \<noteq> None"
  by (simp add: boundary_text_def re_defs eval_defs)

lemma plain_signs:
  "search U (cls [Ch 36]) False plain_text = None"
  "search U (cls [Ch 8364]) False plain_text = None"
  "search U (cls [Ch 163]) False plain_text = None"
  by (simp_all add: plain_text_def re_defs eval_defs)

lemma boundary_total_amount: "extract_total_amount U boundary_text = Inr None"
  by (simp add: extract_total_amount_def optional_amount_def boundary_amount_re
        boundary_alt_amount_re)

lemma boundary_vendor: "extract_vendor_name U boundary_text None = Inr None"
  by (simp add: extract_vendor_name_def boundary_vendor_re)

lemma boundary_currency: "extract_currency U boundary_text = Inr (str ''USD'')"
  using boundary_dollar by (simp add: extract_currency_def boundary_currency_re)

text \<open>
  C6 at its input. The invoice number is \<open>4412\<close>. The total amount is \<open>None\<close>:
  between \<open>Amount\<close> and the number the primary pattern takes white space, at most
  one of \<open>:\<close> and \<open>$\<close>, and white space, so it stops at the \<open>$\<close> that follows
  the colon and the blank; the alternative pattern finds \<open>Total\<close> followed by
  \<open>Amount\<close>, not by a number.
\<close>

theorem extract_total_amount_colon_dollar:
  "extract_invoice_details_from_text U (str ''Invoice # 4412 ... Total Amount: $1,250.00'')
     None None None
   = Inr \<lparr>invoice_number = Some (str ''4412''), purchase_order = None, total_amount = None,
          invoice_date = None, file_path = None, vendor_name = None, due_date = None,
          tax_amount = None, subtotal = None, currency = str ''USD'',
          status = str ''pending'', extracted_from = str ''email_attachment''\<rparr>"
  unfolding boundary_text_def [symmetric]
  by (simp add: extract_invoice_details_from_text_def boundary_total_amount boundary_vendor
        boundary_currency optional_amount_def boundary_tax_re boundary_subtotal_re
        first_group_def boundary_invoice_re group_re_def boundary_po_re boundary_alt_po_re
        extract_invoice_date_def boundary_date_re boundary_alt_date_re
        extract_due_date_def boundary_due_date_re)

text \<open>
  The same text with \<open>Total:\<close> in place of \<open>Total Amount:\<close> is read by the
  alternative pattern, which allows the colon, the blank and the sign together.
\<close>

lemma sibling_amount_re: "search U amount_re True sibling_text = None"
  by (simp add: amount_re_def number_re_def sibling_text_def re_defs eval_defs)

lemma sibling_alt_amount_re:
  "search U alt_amount_re True sibling_text = Some (str ''Total: $1,250.00'', [(1, str ''1,250.00'')])"
  by (simp add: alt_amount_re_def number_re_def sibling_text_def re_defs eval_defs)

lemma float_1250: "float_of_str U (remove_char 44 (str ''1,250.00'')) = Inr (Fin 1250)"
  by (simp add: float_of_str_def float_of_ascii_def ascii_digit_def remove_char_def str_def
        digits_value_def double_eval)

lemma sibling_total_amount:
  "extract_total_amount U (str ''Invoice # 4412 ... Total: $1,250.00'') = Inr (Some (Fin 1250))"
  unfolding sibling_text_def [symmetric]
  by (simp add: extract_total_amount_def optional_amount_def sibling_amount_re
        sibling_alt_amount_re amount_of_def group_re_def float_1250)

theorem extract_invoice_details_returns_witness:
  "\<forall>U. extract_invoice_details_from_text U (str ''hello'') None None None
     = Inr \<lparr>invoice_number = None, purchase_order = None, total_amount = None,
            invoice_date = None, file_path = None, vendor_name = None, due_date = None,
            tax_amount = None, subtotal = None, currency = str ''USD'',
            status = str ''pending'', extracted_from = str ''email_attachment''\<rparr>"
  (is "\<forall>U. ?P U")
proof
  fix U
  show "?P U"
  proof -
    from extract_invoice_details_returns [of U plain_text None None None]
    obtain d where d: "extract_invoice_details_from_text U plain_text None None None = Inr d"
      and f: "invoice_number d = None" "purchase_order d = None" "total_amount d = None"
        "invoice_date d = None" "vendor_name d = None" "due_date d = None"
        "tax_amount d = None" "subtotal d = None" "currency d = str ''USD''"
        "status d = str ''pending''" "file_path d = None"
      by (auto simp: plain_invoice_re plain_alt_invoice_re plain_po_re plain_alt_po_re
            plain_amount_re plain_alt_amount_re plain_date_re plain_alt_date_re plain_vendor_re
            plain_due_date_re plain_tax_re plain_subtotal_re plain_currency_re plain_signs)
    have e: "extracted_from d = str ''email_attachment''"
      using d by (auto simp: extract_invoice_details_from_text_def split: sum.splits)
    from d f e show ?thesis
      unfolding plain_text_def by (cases d) simp
  qed
qed

section \<open>Characters beyond ASCII\<close>

text \<open>
  Beyond ASCII the results follow the database. Each lemma of this section assumes of the
  database what Python's says of the characters of its text, and nothing else.
\<close>

text \<open>
  Two vendor names that differ by case only, in letters with an accent, are no
  discrepancy.
\<close>

lemma vendor_ecole:
  assumes "u_lower U ecole_upper = ecole_lower" and "u_lower U ecole_lower = ecole_lower"
  shows "vendor_discrepancy U (Some ecole_upper) (Some ecole_lower) = []"
proof -
  have "\<not> is_ascii ecole_upper" "\<not> is_ascii ecole_lower"
    by (simp_all add: is_ascii_def ecole_upper_def ecole_lower_def)
  with assms have "lower U ecole_upper = lower U ecole_lower"
    by (simp add: lower_def)
  then show ?thesis by (simp add: vendor_discrepancy_def)
qed

text \<open>
  The detector takes the digits of another script for \<open>\w\<close> and \<open>\d\<close>.
\<close>

lemma arabic_keywords: "keyword_matches arabic_text = 1"
  by (simp add: keyword_matches_def invoice_keywords_def arabic_text_def str_def)

lemma arabic_hash:
  assumes "u_decimal U 1635 = Some 3"
  shows "search U invoice_hash_re False arabic_text \<noteq> None"
  using assms by (simp add: invoice_hash_re_def arabic_text_def re_defs eval_defs)

lemma arabic_total:
  assumes "u_decimal U 1635 = Some 3" and "u_decimal U 1637 = Some 5"
  shows "search U total_digits_re False arabic_text \<noteq> None"
  using assms by (simp add: total_digits_re_def arabic_text_def re_defs eval_defs)

lemma arabic_detected:
  assumes "u_lower U arabic_text = arabic_text"
    and "u_decimal U 1635 = Some 3" and "u_decimal U 1637 = Some 5"
  shows "is_potential_invoice U arabic_text"
proof -
  have "\<not> is_ascii arabic_text"
    by (simp add: is_ascii_def arabic_text_def str_def)
  with assms(1) have l: "lower U arabic_text = arabic_text"
    by (simp add: lower_def)
  show ?thesis
    using arabic_hash [OF assms(2)] arabic_total [OF assms(2) assms(3)]
    by (simp add: is_potential_invoice_def l arabic_keywords)
qed

text \<open>
  The extractor reads an amount written in the digits of another script: \<open>float\<close>
  takes each digit for its value.
\<close>

lemma arabic_amount_re:
  assumes "u_tolower U 1633 = 1633" "u_tolower U 1634 = 1634" "u_tolower U 1635 = 1635"
  shows "search U amount_re True arabic_total_text = None"
  using assms
  by (simp add: amount_re_def number_re_def arabic_total_text_def re_defs eval_defs)

lemma arabic_alt_amount_re:
  assumes "u_decimal U 1633 = Some 1" "u_decimal U 1634 = Some 2" "u_decimal U 1635 = Some 3"
  shows "search U alt_amount_re True arabic_total_text
     = Some (arabic_total_text, [(1, [1633, 1634, 1635])])"
  using assms
  by (simp add: alt_amount_re_def number_re_def arabic_total_text_def re_defs eval_defs)

lemma arabic_float:
  assumes "u_decimal U 1633 = Some 1" "u_decimal U 1634 = Some 2" "u_decimal U 1635 = Some 3"
  shows "float_of_str U (remove_char 44 [1633, 1634, 1635]) = Inr (Fin 123)"
  using assms
  by (simp add: float_of_str_def float_of_ascii_def ascii_digit_def remove_char_def
        decimal_def is_space_def digits_value_def double_eval)

lemma arabic_total_amount:
  assumes "u_decimal U 1633 = Some 1" "u_decimal U 1634 = Some 2" "u_decimal U 1635 = Some 3"
    and "u_tolower U 1633 = 1633" "u_tolower U 1634 = 1634" "u_tolower U 1635 = 1635"
  shows "extract_total_amount U arabic_total_text = Inr (Some (Fin 123))"
  using arabic_amount_re [OF assms(4-6)] arabic_alt_amount_re [OF assms(1-3)]
    arabic_float [OF assms(1-3)]
  by (simp add: extract_total_amount_def optional_amount_def amount_of_def group_re_def)

text \<open>
  Under \<open>re.IGNORECASE\<close> the long s, which is its own lower case, is an \<open>s\<close>.
\<close>

lemma long_s_subtotal:
  assumes "u_tolower U 383 = 383"
  shows "search U subtotal_re True long_s_text = Some (long_s_text, [(1, str ''5'')])"
  using assms by (simp add: subtotal_re_def number_re_def long_s_text_def re_defs eval_defs)

end
